theory Spec2Isabelle
  imports Complex_Main "HOL-Library.Word"
begin

unbundle bit_operations_syntax

section \<open>Python values used by the packet codec\<close>

type_synonym byte = "8 word"

text \<open>The exceptions the modelled code can raise.\<close>

datatype exn = StructError | ValueError | OverflowError | TypeError | IndexError | IOError

text \<open>
  What a call does: it raises, it executes a bare \<open>return\<close> (the value \<open>None\<close>; the tag
  records which \<open>return\<close> statement of the source was taken), or it returns an object.
\<close>

datatype none_site = ProtocolCheck | CrcCheck

datatype 'p outcome = Raises exn | ReturnsNone none_site | Returns 'p

fun is_None :: "'p outcome \<Rightarrow> bool" where
  "is_None (ReturnsNone _) = True"
| "is_None _ = False"

subsection \<open>PacketType and PacketDataType\<close>

text \<open>
  Modelled from the spec: the enum \<open>PacketType\<close> (file \<open>PacketType.py\<close> is not part of the
  sources): four members, encoded in 2 bits as \<open>OK=0\<close>, \<open>FRAME=1\<close>, \<open>REQUEST=2\<close>, \<open>HALT=3\<close>.
  \<open>PacketType_of n\<close> is the enum call \<open>PacketType(n)\<close>, which raises \<open>ValueError\<close> for a value
  that no member has.
\<close>

datatype PacketType = OK | FRAME | REQUEST | HALT

fun PacketType_value :: "PacketType \<Rightarrow> nat" where
  "PacketType_value OK = 0"
| "PacketType_value FRAME = 1"
| "PacketType_value REQUEST = 2"
| "PacketType_value HALT = 3"

definition PacketType_of :: "nat \<Rightarrow> exn + PacketType" where
  "PacketType_of n =
     (if n = 0 then Inr OK else if n = 1 then Inr FRAME
      else if n = 2 then Inr REQUEST else if n = 3 then Inr HALT
      else Inl ValueError)"

text \<open>
  Modelled from the spec: the enum \<open>PacketDataType\<close> (file \<open>PacketDataType.py\<close> is not part
  of the sources): a closed set of four element types, encoded in 2 bits as \<open>U8=0\<close>,
  \<open>I32=1\<close>, \<open>F32=2\<close>, \<open>F64=3\<close>. \<open>bin_form\<close> is the 2-bit code that \<open>from_dtype\<close> contributes to
  the header byte, \<open>from_bin_form\<close> its inverse, \<open>itemsize\<close> the size of one element in bytes.
\<close>

datatype PacketDataType = U8_INT | I32 | F32 | F64

fun bin_form :: "PacketDataType \<Rightarrow> nat" where
  "bin_form U8_INT = 0"
| "bin_form I32 = 1"
| "bin_form F32 = 2"
| "bin_form F64 = 3"

definition from_bin_form :: "nat \<Rightarrow> exn + PacketDataType" where
  "from_bin_form n =
     (if n = 0 then Inr U8_INT else if n = 1 then Inr I32
      else if n = 2 then Inr F32 else if n = 3 then Inr F64
      else Inl ValueError)"

fun itemsize :: "PacketDataType \<Rightarrow> nat" where
  "itemsize U8_INT = 1"
| "itemsize I32 = 4"
| "itemsize F32 = 4"
| "itemsize F64 = 8"

subsection \<open>NumPy arrays\<close>

text \<open>
  An \<open>ndarray\<close> is its shape, its element type and the bytes \<open>tobytes()\<close> gives (the elements
  in row-major order, each in the byte order of the host, taken to be little-endian).
\<close>

record ndarray =
  nd_shape :: "nat list"
  nd_dtype :: PacketDataType
  nd_bytes :: "byte list"

definition nd_size :: "ndarray \<Rightarrow> nat" where
  "nd_size a = prod_list (nd_shape a)"

text \<open>The invariant of every array: as many bytes as its shape and element type say.\<close>

definition nd_ok :: "ndarray \<Rightarrow> bool" where
  "nd_ok a \<longleftrightarrow> length (nd_bytes a) = nd_size a * itemsize (nd_dtype a)"

text \<open>\<open>int.from_bytes(data, "little")\<close>.\<close>

fun from_le :: "byte list \<Rightarrow> nat" where
  "from_le [] = 0"
| "from_le (b # bs) = unat b + 256 * from_le bs"

text \<open>\<open>int.from_bytes(data, "big")\<close>.\<close>

definition from_be :: "byte list \<Rightarrow> nat" where
  "from_be bs = from_le (rev bs)"

text \<open>\<open>np.frombuffer(buf, dtype)\<close>: a 1-D array over the buffer.\<close>

definition frombuffer :: "byte list \<Rightarrow> PacketDataType \<Rightarrow> exn + ndarray" where
  "frombuffer buf dt =
     (if length buf mod itemsize dt \<noteq> 0 then Inl ValueError
      else Inr \<lparr>nd_shape = [length buf div itemsize dt], nd_dtype = dt, nd_bytes = buf\<rparr>)"

text \<open>\<open>a.reshape(shape)\<close> with a shape of non-negative entries.\<close>

definition reshape :: "ndarray \<Rightarrow> nat list \<Rightarrow> exn + ndarray" where
  "reshape a shp =
     (if prod_list shp \<noteq> nd_size a then Inl ValueError
      else Inr (a\<lparr>nd_shape := shp\<rparr>))"

text \<open>
  The value of one element. Integers are exact; a float is read off its IEEE 754 bit
  pattern (\<open>e\<close> exponent bits, \<open>m\<close> fraction bits) as a NaN, an infinity or a rational.
\<close>

datatype npval = NaN | Infinity bool | Fin rat

definition ieee_value :: "nat \<Rightarrow> nat \<Rightarrow> nat \<Rightarrow> npval" where
  "ieee_value e m n =
     (let fraction = n mod 2 ^ m;
          expo = (n div 2 ^ m) mod 2 ^ e;
          negative = odd (n div 2 ^ (m + e));
          bias = 2 ^ (e - 1) - 1;
          mantissa = (if expo = 0 then of_nat fraction else of_nat (2 ^ m + fraction)) :: rat;
          expo1 = (if expo = 0 then 1 else expo);
          magnitude = (if bias + m \<le> expo1 then mantissa * 2 ^ (expo1 - (bias + m))
                       else mantissa / 2 ^ (bias + m - expo1))
      in if expo = 2 ^ e - 1 then (if fraction = 0 then Infinity negative else NaN)
         else Fin (if negative then - magnitude else magnitude))"

fun elem_value :: "PacketDataType \<Rightarrow> byte list \<Rightarrow> npval" where
  "elem_value U8_INT bs = Fin (of_nat (from_le bs))"
| "elem_value I32 bs = Fin (of_int (sint (word_of_nat (from_le bs) :: 32 word)))"
| "elem_value F32 bs = ieee_value 8 23 (from_le bs)"
| "elem_value F64 bs = ieee_value 11 52 (from_le bs)"

text \<open>Elementwise \<open>==\<close>: numeric equality, and a NaN equals nothing.\<close>

definition np_equal :: "npval \<Rightarrow> npval \<Rightarrow> bool" where
  "np_equal v w \<longleftrightarrow> v \<noteq> NaN \<and> w \<noteq> NaN \<and> v = w"

fun chunks :: "nat \<Rightarrow> 'a list \<Rightarrow> 'a list list" where
  "chunks k [] = []"
| "chunks k (x # xs) =
     (if k = 0 then [] else take k (x # xs) # chunks k (drop k (x # xs)))"

definition elements :: "ndarray \<Rightarrow> npval list" where
  "elements a = map (elem_value (nd_dtype a)) (chunks (itemsize (nd_dtype a)) (nd_bytes a))"

text \<open>\<open>(a == b).all()\<close> for two arrays of the same shape.\<close>

definition all_equal :: "ndarray \<Rightarrow> ndarray \<Rightarrow> bool" where
  "all_equal a b \<longleftrightarrow> list_all2 np_equal (elements a) (elements b)"

subsection \<open>CRC-16/ARC\<close>

text \<open>
  \<open>fastcrc.crc16.arc\<close>: polynomial 0x8005, reflected input and output (so the register is
  shifted right and the reversed polynomial 0xA001 is used), initial value 0, no final XOR.
\<close>

definition crc16_arc_bit :: "16 word \<Rightarrow> 16 word" where
  "crc16_arc_bit c = (if bit c 0 then drop_bit 1 c XOR 0xA001 else drop_bit 1 c)"

definition crc16_arc_byte :: "16 word \<Rightarrow> byte \<Rightarrow> 16 word" where
  "crc16_arc_byte c b = (crc16_arc_bit ^^ 8) (c XOR ucast b)"

definition crc16_arc :: "byte list \<Rightarrow> nat" where
  "crc16_arc bs = unat (foldl crc16_arc_byte 0 bs)"

subsection \<open>struct.pack fields\<close>

text \<open>Format \<open>I\<close> and \<open>H\<close> with \<open><\<close>: 4 and 2 bytes, little-endian; out of range raises.\<close>

definition le_bytes4 :: "nat \<Rightarrow> byte list" where
  "le_bytes4 n = [of_nat n, of_nat (n div 256), of_nat (n div 65536), of_nat (n div 16777216)]"

definition le_bytes2 :: "nat \<Rightarrow> byte list" where
  "le_bytes2 n = [of_nat n, of_nat (n div 256)]"

definition fits_I :: "int \<Rightarrow> bool" where
  "fits_I v \<longleftrightarrow> 0 \<le> v \<and> v < 2 ^ 32"

definition fits_H :: "int \<Rightarrow> bool" where
  "fits_H v \<longleftrightarrow> 0 \<le> v \<and> v < 2 ^ 16"

section \<open>The packet (src/comm_protocol/Packet.py)\<close>

definition PROTOCOL_VER :: nat where
  "PROTOCOL_VER = 2"

definition START_MAGIC_WORD :: "byte list" where
  "START_MAGIC_WORD = [0x49, 0x4E, 0x55]"

definition END_MAGIC_WORD :: "byte list" where
  "END_MAGIC_WORD = [0x4E, 0x45, 0x4B, 0x4F]"

definition PAYLOAD_LEN_IDX :: nat where
  "PAYLOAD_LEN_IDX = 12"

record packet =
  frame_number :: int
  packet_type :: PacketType
  payload_dtype :: PacketDataType
  frame_shape :: "nat list"
  frame_channel_count :: nat
  payload :: ndarray
  payload_crc :: nat

definition compute_crc :: "ndarray \<Rightarrow> nat" where
  "compute_crc a = crc16_arc (nd_bytes a)"

text \<open>
  \<open>Packet.__init__\<close>. The first \<open>if\<close> stores channel count 0 for the shape \<open>(0,)\<close>; the second
  \<open>if\<close> is not nested in its \<open>else\<close> and assigns the channel count again in every case.
\<close>

definition Packet_init :: "int \<Rightarrow> PacketType \<Rightarrow> ndarray \<Rightarrow> packet" where
  "Packet_init fn pt a =
     (let shp = nd_shape a;
          fs = (if shp = [0] then [0, 0] else take 2 shp);
          cc = (if length shp \<le> 2 then 1 else shp ! 2)
      in \<lparr>frame_number = fn, packet_type = pt, payload_dtype = nd_dtype a,
          frame_shape = fs, frame_channel_count = cc, payload = a,
          payload_crc = compute_crc a\<rparr>)"

definition payload_length :: "packet \<Rightarrow> nat" where
  "payload_length self = length (nd_bytes (payload self))"

text \<open>\<open>Packet.__eq__\<close> between two packets.\<close>

definition packet_eq :: "packet \<Rightarrow> packet \<Rightarrow> bool" where
  "packet_eq self other \<longleftrightarrow>
     frame_number self = frame_number other
     \<and> packet_type self = packet_type other
     \<and> payload_crc self = payload_crc other
     \<and> nd_shape (payload self) = nd_shape (payload other)
     \<and> all_equal (payload self) (payload other)"

text \<open>
  \<open>Packet.serialize\<close>. \<open>to_bytes(1, ...)\<close> raises \<open>OverflowError\<close> for a header value over
  255; \<open>struct.pack\<close> raises \<open>struct.error\<close> unless \<open>frame_shape[:2]\<close> has two entries and
  every integer fits its field.
\<close>

definition header_byte :: "packet \<Rightarrow> nat" where
  "header_byte self =
     push_bit 6 PROTOCOL_VER
     OR push_bit 4 (PacketType_value (packet_type self))
     OR push_bit 2 (frame_channel_count self)
     OR bin_form (payload_dtype self)"

text \<open>The buffer \<open>struct.pack\<close> lays out from values that fit their fields.\<close>

definition wire :: "byte \<Rightarrow> nat \<Rightarrow> nat \<Rightarrow> nat \<Rightarrow> byte list \<Rightarrow> nat \<Rightarrow> byte list" where
  "wire hb fnum x y payload_bytes crc =
     START_MAGIC_WORD @ [hb] @ le_bytes4 fnum @ le_bytes2 x @ le_bytes2 y
     @ le_bytes4 (length payload_bytes) @ payload_bytes @ le_bytes2 crc @ END_MAGIC_WORD"

definition serialize :: "packet \<Rightarrow> exn + byte list" where
  "serialize self =
     (let proto_ptype_channelcount = header_byte self
      in if 256 \<le> proto_ptype_channelcount then Inl OverflowError
         else (case take 2 (frame_shape self) of
             [x, y] \<Rightarrow>
               if fits_I (frame_number self) \<and> fits_H (int x) \<and> fits_H (int y)
                  \<and> fits_I (int (payload_length self)) \<and> fits_H (int (payload_crc self))
               then Inr (wire (of_nat proto_ptype_channelcount) (nat (frame_number self)) x y
                           (nd_bytes (payload self)) (payload_crc self))
               else Inl StructError
           | _ \<Rightarrow> Inl StructError))"

text \<open>\<open>Packet.placeholder\<close>: \<open>Packet(0, PacketType.OK, np.array((), dtype=uint8))\<close>.\<close>

definition empty_u8 :: ndarray where
  "empty_u8 = \<lparr>nd_shape = [0], nd_dtype = U8_INT, nd_bytes = []\<rparr>"

definition placeholder :: packet where
  "placeholder = Packet_init 0 OK empty_u8"

text \<open>
  \<open>bin(n)[2:]\<close>: the binary digits of \<open>n\<close>, most significant first, without leading zeros.
\<close>

fun bin_digits :: "nat \<Rightarrow> string" where
  "bin_digits n =
     (if n < 2 then [if n = 0 then CHR ''0'' else CHR ''1'']
      else bin_digits (n div 2) @ [if even n then CHR ''0'' else CHR ''1''])"

declare bin_digits.simps [simp del]

text \<open>\<open>int(s, 2)\<close> on a string of binary digits; the empty string raises \<open>ValueError\<close>.\<close>

fun int_base2_acc :: "nat \<Rightarrow> string \<Rightarrow> exn + nat" where
  "int_base2_acc acc [] = Inr acc"
| "int_base2_acc acc (c # cs) =
     (if c = CHR ''0'' then int_base2_acc (2 * acc) cs
      else if c = CHR ''1'' then int_base2_acc (2 * acc + 1) cs
      else Inl ValueError)"

definition int_base2 :: "string \<Rightarrow> exn + nat" where
  "int_base2 s = (if s = [] then Inl ValueError else int_base2_acc 0 s)"

text \<open>A Python slice \<open>s[i:j]\<close> with \<open>0 \<le> i \<le> j\<close>.\<close>

definition slice :: "nat \<Rightarrow> nat \<Rightarrow> 'a list \<Rightarrow> 'a list" where
  "slice i j s = take (j - i) (drop i s)"

text \<open>
  \<open>struct.unpack\<close> with the format \<open><3s1cI2HI\<close>, \<open>%ss % payload_length\<close>, \<open>H4s\<close>, where the
  length is read from the four bytes at \<open>PAYLOAD_LEN_IDX\<close>. It raises \<open>struct.error\<close> unless
  the buffer has exactly the size of the format, 22 bytes and that length.
\<close>

record unpacked =
  u_start :: "byte list"
  u_prover_ptype_ccount :: "byte list"
  u_frame_number :: nat
  u_frame_x_shape :: nat
  u_frame_y_shape :: nat
  u_payload_length :: nat
  u_payload_bin :: "byte list"
  u_payload_crc :: nat
  u_end :: "byte list"

definition unpack :: "byte list \<Rightarrow> exn + unpacked" where
  "unpack raw_packet =
     (let n = from_le (slice PAYLOAD_LEN_IDX (PAYLOAD_LEN_IDX + 4) raw_packet)
      in if length raw_packet \<noteq> 22 + n then Inl StructError
         else Inr \<lparr>u_start = slice 0 3 raw_packet,
                   u_prover_ptype_ccount = slice 3 4 raw_packet,
                   u_frame_number = from_le (slice 4 8 raw_packet),
                   u_frame_x_shape = from_le (slice 8 10 raw_packet),
                   u_frame_y_shape = from_le (slice 10 12 raw_packet),
                   u_payload_length = from_le (slice 12 16 raw_packet),
                   u_payload_bin = slice 16 (16 + n) raw_packet,
                   u_payload_crc = from_le (slice (16 + n) (18 + n) raw_packet),
                   u_end = slice (18 + n) (22 + n) raw_packet\<rparr>)"

text \<open>
  The header byte, read through its binary digit string: protocol version (checked against
  \<open>PROTOCOL_VER\<close>), packet type, channel count and payload type, in the order of the source.
\<close>

definition header_fields :: "nat \<Rightarrow> (PacketType \<times> nat \<times> PacketDataType) outcome" where
  "header_fields prover_ptype_ccount =
     (let bits = bin_digits prover_ptype_ccount
      in case int_base2 (slice 0 2 bits) of
           Inl e \<Rightarrow> Raises e
         | Inr proto_ver \<Rightarrow>
      if proto_ver \<noteq> PROTOCOL_VER then ReturnsNone ProtocolCheck
      else case int_base2 (slice 2 4 bits) of
           Inl e \<Rightarrow> Raises e
         | Inr ptype_value \<Rightarrow>
      case PacketType_of ptype_value of
           Inl e \<Rightarrow> Raises e
         | Inr ptype \<Rightarrow>
      case int_base2 (slice 4 6 bits) of
           Inl e \<Rightarrow> Raises e
         | Inr ccount \<Rightarrow>
      case int_base2 (drop 6 bits) of
           Inl e \<Rightarrow> Raises e
         | Inr dtype_value \<Rightarrow>
      case from_bin_form dtype_value of
           Inl e \<Rightarrow> Raises e
         | Inr dtype \<Rightarrow> Returns (ptype, ccount, dtype))"

text \<open>What \<open>Packet.deserialize\<close> has in hand when it reaches the CRC comparison.\<close>

record parsed =
  p_packet_type :: PacketType
  p_frame_channel_count :: nat
  p_frame_number :: nat
  p_shape :: "nat list"
  p_payload :: ndarray
  p_payload_dtype :: PacketDataType
  p_payload_bin :: "byte list"
  p_payload_crc :: nat

text \<open>
  \<open>Packet.deserialize\<close> up to the CRC comparison. The unpacked values bound to \<open>_\<close> (both
  magic words and the length) are not looked at again.
\<close>

definition deserialize_parse :: "byte list \<Rightarrow> parsed outcome" where
  "deserialize_parse raw_packet =
     (case unpack raw_packet of
        Inl e \<Rightarrow> Raises e
      | Inr u \<Rightarrow>
     (case header_fields (from_le (u_prover_ptype_ccount u)) of
        Raises e \<Rightarrow> Raises e
      | ReturnsNone site \<Rightarrow> ReturnsNone site
      | Returns (ptype, ccount, dtype) \<Rightarrow>
     (case frombuffer (u_payload_bin u) dtype of
        Inl e \<Rightarrow> Raises e
      | Inr flat \<Rightarrow>
     (let shape = (if ccount = 1 then [u_frame_x_shape u, u_frame_y_shape u]
                   else [u_frame_x_shape u, u_frame_y_shape u, ccount])
      in case reshape flat shape of
           Inl e \<Rightarrow> Raises e
         | Inr reshaped \<Rightarrow>
             Returns \<lparr>p_packet_type = ptype,
                      p_frame_channel_count = ccount,
                      p_frame_number = u_frame_number u,
                      p_shape = shape,
                      p_payload = reshaped,
                      p_payload_dtype = dtype,
                      p_payload_bin = u_payload_bin u,
                      p_payload_crc = u_payload_crc u\<rparr>))))"

text \<open>The assignments to the placeholder after the CRC comparison.\<close>

definition assign_fields :: "parsed \<Rightarrow> packet" where
  "assign_fields f =
     placeholder\<lparr>packet_type := p_packet_type f,
                 frame_channel_count := p_frame_channel_count f,
                 frame_number := int (p_frame_number f),
                 frame_shape := p_shape f,
                 payload := p_payload f,
                 payload_dtype := p_payload_dtype f,
                 payload_crc := p_payload_crc f\<rparr>"

definition deserialize :: "byte list \<Rightarrow> packet outcome" where
  "deserialize raw_packet =
     (case deserialize_parse raw_packet of
        Raises e \<Rightarrow> Raises e
      | ReturnsNone site \<Rightarrow> ReturnsNone site
      | Returns f \<Rightarrow>
          if p_payload_crc f \<noteq> crc16_arc (p_payload_bin f) then ReturnsNone CrcCheck
          else Returns (assign_fields f))"

text \<open>
  A packet the sender can build and put on the wire: made by \<open>Packet.__init__\<close> from a frame
  of two or three axes with at most three channels, with every number inside its field.
\<close>

definition wire_ok :: "int \<Rightarrow> ndarray \<Rightarrow> bool" where
  "wire_ok fn a \<longleftrightarrow>
     nd_ok a \<and> fits_I fn \<and> length (nd_bytes a) < 2 ^ 32
     \<and> (length (nd_shape a) = 2 \<or> length (nd_shape a) = 3 \<and> nd_shape a ! 2 \<le> 3)
     \<and> nd_shape a ! 0 < 2 ^ 16 \<and> nd_shape a ! 1 < 2 ^ 16"

text \<open>The shape \<open>deserialize\<close> gives back to such a frame: a single channel axis is dropped.\<close>

definition decoded_shape :: "nat list \<Rightarrow> nat list" where
  "decoded_shape shp = (if length shp = 3 \<and> shp ! 2 = 1 then take 2 shp else shp)"

text \<open>One bit of one byte of a buffer flipped.\<close>

definition flip_bit_at :: "nat \<Rightarrow> nat \<Rightarrow> byte list \<Rightarrow> byte list" where
  "flip_bit_at i k bs = bs[i := (bs ! i) XOR push_bit k 1]"

text \<open>
  The value of the expression \<open>Packet.deserialize(p.serialize()) == p\<close>: true when
  \<open>serialize\<close> and \<open>deserialize\<close> both return and \<open>__eq__\<close> holds between the two packets.
\<close>

definition roundtrips :: "packet \<Rightarrow> bool" where
  "roundtrips p =
     (case serialize p of
        Inl e \<Rightarrow> False
      | Inr data \<Rightarrow>
          (case deserialize data of
             Returns q \<Rightarrow> packet_eq q p
           | Raises e \<Rightarrow> False
           | ReturnsNone site \<Rightarrow> False))"

text \<open>The frame of the module's own example: \<open>np.full((2, 2, 3), 4, dtype=np.uint8)\<close>.\<close>

definition og_payload :: ndarray where
  "og_payload = \<lparr>nd_shape = [2, 2, 3], nd_dtype = U8_INT,
                  nd_bytes = [4, 4, 4, 4, 4, 4, 4, 4, 4, 4, 4, 4]\<rparr>"

section \<open>The older packet (raspberry_communication_protocol/Packet.py)\<close>

text \<open>
  \<open>crc.Calculator(crc.Crc16.CCITT.value).checksum\<close>: polynomial 0x1021, initial value 0,
  no reflection, no final XOR; the register is shifted left.
\<close>

definition crc16_ccitt_bit :: "16 word \<Rightarrow> 16 word" where
  "crc16_ccitt_bit c = (if bit c 15 then push_bit 1 c XOR 0x1021 else push_bit 1 c)"

definition crc16_ccitt_byte :: "16 word \<Rightarrow> byte \<Rightarrow> 16 word" where
  "crc16_ccitt_byte c b = (crc16_ccitt_bit ^^ 8) (c XOR push_bit 8 (ucast b))"

definition checksum :: "byte list \<Rightarrow> nat" where
  "checksum bs = unat (foldl crc16_ccitt_byte 0 bs)"

text \<open>
  An array of this module: NumPy's \<open>int\<close> elements (8 bytes each) when it comes from
  \<open>frombuffer\<close>, and the empty float array \<open>np.array(())\<close> of the placeholder.
\<close>

record rcp_ndarray =
  rcp_shape :: "nat list"
  rcp_bytes :: "byte list"

text \<open>After \<open>deserialize\<close> the attribute \<open>packet_type\<close> holds the member's name, a string.\<close>

datatype rcp_ptype = Member PacketType | Name string

fun PacketType_name :: "PacketType \<Rightarrow> string" where
  "PacketType_name OK = ''OK''"
| "PacketType_name FRAME = ''FRAME''"
| "PacketType_name REQUEST = ''REQUEST''"
| "PacketType_name HALT = ''HALT''"

record rcp_packet =
  rcp_frame_number :: int
  rcp_packet_type :: rcp_ptype
  rcp_frame_shape :: "nat list"
  rcp_frame_channel_count :: nat
  rcp_payload :: rcp_ndarray
  rcp_payload_crc :: nat

definition rcp_Packet_init :: "int \<Rightarrow> PacketType \<Rightarrow> rcp_ndarray \<Rightarrow> rcp_packet" where
  "rcp_Packet_init fn pt a =
     \<lparr>rcp_frame_number = fn, rcp_packet_type = Member pt,
      rcp_frame_shape = take 2 (rcp_shape a),
      rcp_frame_channel_count = (if length (rcp_shape a) \<le> 2 then 1 else rcp_shape a ! 2),
      rcp_payload = a,
      rcp_payload_crc = checksum (rcp_bytes a)\<rparr>"

definition rcp_placeholder :: rcp_packet where
  "rcp_placeholder = rcp_Packet_init (- 1) OK \<lparr>rcp_shape = [0], rcp_bytes = []\<rparr>"

record rcp_parsed =
  r_packet_type :: string
  r_frame_channel_count :: nat
  r_frame_number :: nat
  r_shape :: "nat list"
  r_payload :: rcp_ndarray
  r_payload_bin :: "byte list"
  r_payload_crc :: nat

text \<open>
  The older \<open>Packet.deserialize\<close> up to the CRC comparison: format \<open>!3s1cI2HI\<close>,
  \<open>{payload_length}s\<close>, \<open>2s4s\<close>, all integers big-endian, the payload reshaped to three axes.
\<close>

definition rcp_deserialize_parse :: "byte list \<Rightarrow> rcp_parsed outcome" where
  "rcp_deserialize_parse raw_packet =
     (let n = from_be (slice 12 16 raw_packet)
      in if length raw_packet \<noteq> 22 + n then Raises StructError
      else
        let prover_ptype_ccount = from_be (slice 3 4 raw_packet);
            fnum = from_be (slice 4 8 raw_packet);
            frame_x_shape = from_be (slice 8 10 raw_packet);
            frame_y_shape = from_be (slice 10 12 raw_packet);
            payload_bin = slice 16 (16 + n) raw_packet;
            crc_value = from_be (slice (16 + n) (18 + n) raw_packet);
            bits = bin_digits prover_ptype_ccount
        in case int_base2 (slice 0 2 bits) of
             Inl e \<Rightarrow> Raises e
           | Inr proto_ver \<Rightarrow>
        if proto_ver \<noteq> PROTOCOL_VER then ReturnsNone ProtocolCheck
        else case int_base2 (slice 2 4 bits) of
             Inl e \<Rightarrow> Raises e
           | Inr ptype_value \<Rightarrow>
        case PacketType_of ptype_value of
             Inl e \<Rightarrow> Raises e
           | Inr ptype \<Rightarrow>
        case int_base2 (slice 4 6 bits) of
             Inl e \<Rightarrow> Raises e
           | Inr ccount \<Rightarrow>
        if length payload_bin mod 8 \<noteq> 0 then Raises ValueError
        else if frame_x_shape * frame_y_shape * ccount \<noteq> length payload_bin div 8
        then Raises ValueError
        else Returns \<lparr>r_packet_type = PacketType_name ptype,
                      r_frame_channel_count = ccount,
                      r_frame_number = fnum,
                      r_shape = [frame_x_shape, frame_y_shape, ccount],
                      r_payload = \<lparr>rcp_shape = [frame_x_shape, frame_y_shape, ccount],
                                   rcp_bytes = payload_bin\<rparr>,
                      r_payload_bin = payload_bin,
                      r_payload_crc = crc_value\<rparr>)"

definition rcp_assign_fields :: "rcp_parsed \<Rightarrow> rcp_packet" where
  "rcp_assign_fields f =
     rcp_placeholder\<lparr>rcp_packet_type := Name (r_packet_type f),
                     rcp_frame_channel_count := r_frame_channel_count f,
                     rcp_frame_number := int (r_frame_number f),
                     rcp_frame_shape := r_shape f,
                     rcp_payload := r_payload f\<rparr>"

definition rcp_deserialize :: "byte list \<Rightarrow> rcp_packet outcome" where
  "rcp_deserialize raw_packet =
     (case rcp_deserialize_parse raw_packet of
        Raises e \<Rightarrow> Raises e
      | ReturnsNone site \<Rightarrow> ReturnsNone site
      | Returns f \<Rightarrow>
          if r_payload_crc f = checksum (r_payload_bin f) then ReturnsNone CrcCheck
          else Returns (rcp_assign_fields f))"

section \<open>The frame server's request handler (FrameTCPServerRequestHandler.py)\<close>

text \<open>
  The attributes of the server that the handler reads and writes, and \<open>sent\<close>, the buffers
  passed to \<open>self.request.sendall\<close> so far. The queue is the handler's view of
  \<open>frames_queue\<close>: \<open>get\<close> takes its head.
\<close>

record server =
  frames_queue :: "(int \<times> ndarray) list"
  current_data_to_send :: "(int \<times> ndarray) option"
  halt_server_event :: bool
  socket_closed :: bool
  sent :: "byte list list"

text \<open>How one pass through the body of the \<open>while True\<close> loop ends.\<close>

datatype flow = Continue | Break | Raise exn

text \<open>
  \<open>_send_current_data\<close>. Unpacking \<open>None\<close> raises \<open>TypeError\<close>; an exception of \<open>serialize\<close>
  leaves the handler before anything is sent.
\<close>

definition send_current_data :: "server \<Rightarrow> server \<times> exn option" where
  "send_current_data s =
     (case current_data_to_send s of
        None \<Rightarrow> (s, Some TypeError)
      | Some (fnum, img) \<Rightarrow>
          (case serialize (Packet_init fnum FRAME img) of
             Inl e \<Rightarrow> (s, Some e)
           | Inr data \<Rightarrow> (s\<lparr>sent := sent s @ [data]\<rparr>, None)))"

text \<open>
  The loop of \<open>_update_new_data_to_send\<close>: take the head of the queue; on an empty queue
  stop if the halt event is set, wait and try again otherwise. With nobody filling the queue
  the wait does not end, which is the value \<open>None\<close> here.
\<close>

partial_function (option) acquire_loop :: "server \<Rightarrow> server option" where
  "acquire_loop s =
     (case current_data_to_send s of
        Some item \<Rightarrow> Some s
      | None \<Rightarrow>
          (case frames_queue s of
             item # rest \<Rightarrow>
               acquire_loop (s\<lparr>current_data_to_send := Some item, frames_queue := rest\<rparr>)
           | [] \<Rightarrow> if halt_server_event s then Some s else acquire_loop s))"

definition update_new_data_to_send :: "server \<Rightarrow> (server \<times> bool) option" where
  "update_new_data_to_send s =
     (case acquire_loop (s\<lparr>current_data_to_send := None\<rparr>) of
        None \<Rightarrow> None
      | Some s' \<Rightarrow> Some (s', current_data_to_send s' \<noteq> None))"

text \<open>
  The body of \<open>handle\<close> from the deserialized request on: the dispatch on its packet type.
\<close>

definition handle_request :: "packet \<Rightarrow> server \<Rightarrow> (server \<times> flow) option" where
  "handle_request deserialized s =
     (if packet_type deserialized = OK then
        (case update_new_data_to_send s of
           None \<Rightarrow> None
         | Some (s', got) \<Rightarrow>
             if got then
               (case send_current_data s' of
                  (s'', None) \<Rightarrow> Some (s'', Continue)
                | (s'', Some e) \<Rightarrow> Some (s'', Raise e))
             else Some (s', Continue))
      else if packet_type deserialized = REQUEST then
        (case send_current_data s of
           (s', None) \<Rightarrow> Some (s', Continue)
         | (s', Some e) \<Rightarrow> Some (s', Raise e))
      else if packet_type deserialized = HALT then
        Some (s\<lparr>socket_closed := True\<rparr>, Break)
      else Some (s, Continue))"

section \<open>The video reader (VideoReader.py)\<close>

text \<open>
  What the reader's thread does to the world, in order: \<open>self._frames_queue.put((frame_id,
  frame))\<close> and the rewind \<open>self._video_feed.set(cv.CAP_PROP_POS_MSEC, 0)\<close>.
\<close>

datatype 'f effect = Put nat 'f | Rewind

text \<open>
  The reader's thread sees a video feed (its frames and the read position), the two events,
  and leaves its effects behind. An event is set by another thread at some moment and stays
  set while the thread runs: \<open>clock\<close> counts the evaluations of a loop condition, and an
  event reads as set from its moment on.
\<close>

record 'f reader =
  video_frames :: "'f list"
  video_pos :: nat
  is_opened :: bool
  is_video :: bool
  loop_video :: bool
  effects :: "'f effect list"
  clock :: nat
  halt_at :: nat
  reset_at :: nat

text \<open>The items put on the frames queue, in order.\<close>

fun items_of :: "'f effect list \<Rightarrow> (nat \<times> 'f) list" where
  "items_of [] = []"
| "items_of (Put frame_id frame # es) = (frame_id, frame) # items_of es"
| "items_of (Rewind # es) = items_of es"

definition put_items :: "'f reader \<Rightarrow> (nat \<times> 'f) list" where
  "put_items s = items_of (effects s)"

definition halt_is_set :: "'f reader \<Rightarrow> bool" where
  "halt_is_set s \<longleftrightarrow> halt_at s \<le> clock s"

definition reset_is_set :: "'f reader \<Rightarrow> bool" where
  "reset_is_set s \<longleftrightarrow> reset_at s \<le> clock s"

definition tick :: "'f reader \<Rightarrow> 'f reader" where
  "tick s = s\<lparr>clock := Suc (clock s)\<rparr>"

text \<open>The inner \<open>while\<close> loop of \<open>_run\<close>, entered with the current \<open>frame_id\<close>.\<close>

function read_frames :: "'f reader \<Rightarrow> nat \<Rightarrow> 'f reader" where
  "read_frames s frame_id =
     (if is_opened s \<and> \<not> halt_is_set s \<and> \<not> reset_is_set s then
        (if video_pos s < length (video_frames s) then
           read_frames
             (tick (s\<lparr>effects := effects s @ [Put frame_id (video_frames s ! video_pos s)],
                     video_pos := Suc (video_pos s)\<rparr>))
             (frame_id + 1)
         else tick s)
      else tick s)"
  by pat_completeness auto
termination
  by (relation "measure (\<lambda>(s, frame_id). halt_at s - clock s)")
     (auto simp: halt_is_set_def tick_def)

declare read_frames.simps [simp del]

text \<open>
  \<open>_run\<close>: the outer loop sets \<open>frame_id = 0\<close> and reads frames; when the inner loop is left
  and looping is on with no event set, the feed is rewound and the outer loop goes round
  again. (The sleep between two frames of a video is left out.)
\<close>

function run :: "'f reader \<Rightarrow> 'f reader" where
  "run s =
     (let s1 = read_frames s 0
      in if loop_video s1 \<and> \<not> halt_is_set s1 \<and> \<not> reset_is_set s1
         then run (tick (s1\<lparr>video_pos := 0, effects := effects s1 @ [Rewind]\<rparr>))
         else (tick s1)\<lparr>is_opened := False\<rparr>)"
  by pat_completeness auto
termination
proof (relation "measure (\<lambda>s. halt_at s - clock s)")
  show "wf (measure (\<lambda>s::'f reader. halt_at s - clock s))"
    by simp
next
  fix s s1 :: "'f reader"
  assume s1: "s1 = read_frames s 0"
    and go: "loop_video s1 \<and> \<not> halt_is_set s1 \<and> \<not> reset_is_set s1"
  have mono: "halt_at (read_frames t k) = halt_at t \<and> clock t < clock (read_frames t k)"
    for t :: "'f reader" and k
  proof (induction t k rule: read_frames.induct)
    case (1 t k)
    show ?case
    proof (cases "is_opened t \<and> \<not> halt_is_set t \<and> \<not> reset_is_set t
                  \<and> video_pos t < length (video_frames t)")
      case True
      then have "read_frames t k =
          read_frames (tick (t\<lparr>effects := effects t @ [Put k (video_frames t ! video_pos t)],
                                video_pos := Suc (video_pos t)\<rparr>)) (k + 1)"
        by (subst read_frames.simps) simp
      moreover from True "1.IH"
      have "halt_at (read_frames (tick (t\<lparr>effects := effects t @ [Put k (video_frames t ! video_pos t)],
                                video_pos := Suc (video_pos t)\<rparr>)) (k + 1)) = halt_at t
            \<and> clock t < clock (read_frames (tick (t\<lparr>effects := effects t @ [Put k (video_frames t ! video_pos t)],
                                video_pos := Suc (video_pos t)\<rparr>)) (k + 1))"
        by (simp add: tick_def)
      ultimately show ?thesis
        by simp
    next
      case False
      then have "read_frames t k = tick t"
        by (subst read_frames.simps) auto
      then show ?thesis
        by (simp add: tick_def)
    qed
  qed
  from go have "clock s1 < halt_at s1"
    by (simp add: halt_is_set_def)
  with mono [of s 0] s1
  show "(tick (s1\<lparr>video_pos := 0, effects := effects s1 @ [Rewind]\<rparr>), s)
          \<in> measure (\<lambda>s. halt_at s - clock s)"
    by (auto simp: tick_def)
qed

declare run.simps [simp del]

text \<open>\<open>start\<close>: the thread runs \<open>_run\<close>.\<close>

definition start :: "'f reader \<Rightarrow> 'f reader" where
  "start s = run s"

text \<open>
  \<open>change_feed\<close>, applied to the reader as the stopped thread left it (\<open>join\<close> has returned).
  \<open>feed\<close> is what \<open>cv.VideoCapture(feed_origin)\<close> opens, \<open>None\<close> if it cannot be opened;
  the reset event is cleared, to be set again \<open>Suc delay\<close> condition checks later.
\<close>

definition change_feed :: "'f reader \<Rightarrow> 'f list option \<Rightarrow> bool \<Rightarrow> bool \<Rightarrow> nat \<Rightarrow> exn + 'f reader" where
  "change_feed s feed isvideo loopvideo delay =
     (case feed of
        None \<Rightarrow> Inl IOError
      | Some frames \<Rightarrow>
          Inr (start (s\<lparr>video_frames := frames, video_pos := 0, is_opened := True,
                         is_video := isvideo, loop_video := loopvideo,
                         reset_at := clock s + Suc delay\<rparr>)))"

text \<open>The frame numbers of a list of queue items.\<close>

definition frame_numbers :: "(nat \<times> 'f) list \<Rightarrow> nat list" where
  "frame_numbers items = map fst items"

text \<open>
  Replaying effects against a feed, from a read position and the frame number due next.
  A put fits when it carries the frame at the read position and the number due; it moves both
  on by one. A rewind sets the position and the number due back to 0; on an opened feed it
  fits only at the end of the feed. The result is the position and the number due after the
  last effect, and \<open>None\<close> when an effect does not fit.
\<close>

fun replay :: "bool \<Rightarrow> 'f list \<Rightarrow> nat \<times> nat \<Rightarrow> 'f effect list \<Rightarrow> (nat \<times> nat) option" where
  "replay opened frames (pos, due) [] = Some (pos, due)"
| "replay opened frames (pos, due) (Put frame_id frame # es) =
     (if frame_id = due \<and> pos < length frames \<and> frame = frames ! pos
      then replay opened frames (Suc pos, Suc due) es
      else None)"
| "replay opened frames (pos, due) (Rewind # es) =
     (if opened \<longrightarrow> length frames \<le> pos
      then replay opened frames (0, 0) es
      else None)"

text \<open>The number of rewinds among some effects.\<close>

definition rewinds :: "'f effect list \<Rightarrow> nat" where
  "rewinds es = length (filter (\<lambda>e. e = Rewind) es)"

text \<open>
  A reader on a video of two frames with looping on, halted at its sixth condition check.
\<close>

definition two_frame_loop :: "nat reader" where
  "two_frame_loop =
     \<lparr>video_frames = [10, 20], video_pos = 0, is_opened = True, is_video = True,
      loop_video = True, effects = [], clock = 0, halt_at = 5, reset_at = 100\<rparr>"

section \<open>Regions (pattern_tracking/utils.py)\<close>

text \<open>
  \<open>min(range(len(c)), key=c.__getitem__)\<close> for a pair \<open>c\<close>: the first index of a least entry.
\<close>

definition min_index :: "'a::linorder list \<Rightarrow> nat" where
  "min_index c = (if c ! 1 < c ! 0 then 1 else 0)"

text \<open>\<open>normalize_region\<close>; indexing a point of fewer than two entries raises \<open>IndexError\<close>.\<close>

definition normalize_region :: "'a::linorder list \<Rightarrow> 'a list \<Rightarrow> exn + 'a list list" where
  "normalize_region pt1 pt2 =
     (if length pt1 < 2 \<or> length pt2 < 2 then Inl IndexError
      else
        let x_coords = [pt1 ! 0, pt2 ! 0];
            y_coords = [pt1 ! 1, pt2 ! 1];
            min_x_index = min_index x_coords;
            min_x = x_coords ! min_x_index;
            max_x = x_coords ! ((min_x_index + 1) mod 2);
            min_y_index = min_index y_coords;
            min_y = y_coords ! min_y_index;
            max_y = y_coords ! ((min_y_index + 1) mod 2)
        in Inr [[min_x, min_y], [max_x, max_y]])"

section \<open>Evaluation lemmas\<close>

lemma funpow8: "(f ^^ 8) x = f (f (f (f (f (f (f (f x)))))))"
  by (simp add: eval_nat_numeral)

lemmas bin_digits_numeral = bin_digits.simps [of "numeral k" for k]
lemmas bin_digits_0 = bin_digits.simps [of 0]
lemmas bin_digits_1 = bin_digits.simps [of 1]

lemma crc16_arc_Nil: "crc16_arc [] = 0"
  by (simp add: crc16_arc_def)

lemma crc16_arc_og_payload:
  "crc16_arc [4, 4, 4, 4, 4, 4, 4, 4, 4, 4, 4, 4] = 0x6F60"
proof -
  have "foldl crc16_arc_byte 0 [4, 4, 4, 4, 4, 4, 4, 4, 4, 4, 4, 4] = 0x6F60"
    by (simp add: crc16_arc_byte_def crc16_arc_bit_def funpow8)
  then show ?thesis
    by (simp add: crc16_arc_def)
qed

lemma Packet_init_og_payload:
  "Packet_init 0xFA FRAME og_payload =
     \<lparr>frame_number = 0xFA, packet_type = FRAME, payload_dtype = U8_INT,
      frame_shape = [2, 2], frame_channel_count = 3, payload = og_payload,
      payload_crc = 0x6F60\<rparr>"
  by (simp add: Packet_init_def og_payload_def compute_crc_def crc16_arc_og_payload)

lemma serialize_og_payload:
  "serialize (Packet_init 0xFA FRAME og_payload) =
     Inr [0x49, 0x4E, 0x55, 0x9C, 0xFA, 0, 0, 0, 2, 0, 2, 0, 0x0C, 0, 0, 0,
          4, 4, 4, 4, 4, 4, 4, 4, 4, 4, 4, 4, 0x60, 0x6F, 0x4E, 0x45, 0x4B, 0x4F]"
  unfolding Packet_init_og_payload
  by (simp add: serialize_def header_byte_def PROTOCOL_VER_def
      fits_I_def fits_H_def payload_length_def og_payload_def wire_def
      START_MAGIC_WORD_def END_MAGIC_WORD_def le_bytes4_def le_bytes2_def)

lemmas bin_digits_Suc0 = bin_digits.simps [of "Suc 0"]

lemmas bin_digits_eval = bin_digits_numeral bin_digits_0 bin_digits_1 bin_digits_Suc0

lemmas header_fields_eval =
  header_fields_def bin_digits_eval int_base2_def slice_def PROTOCOL_VER_def
  PacketType_of_def from_bin_form_def

lemmas deserialize_eval =
  deserialize_def deserialize_parse_def unpack_def slice_def PAYLOAD_LEN_IDX_def
  frombuffer_def reshape_def nd_size_def assign_fields_def placeholder_def
  Packet_init_def empty_u8_def compute_crc_def crc16_arc_Nil Let_def

lemma Packet_init_empty_u8:
  "Packet_init 0 OK empty_u8 =
     \<lparr>frame_number = 0, packet_type = OK, payload_dtype = U8_INT,
      frame_shape = [0, 0], frame_channel_count = 1, payload = empty_u8,
      payload_crc = 0\<rparr>"
  by (simp add: Packet_init_def empty_u8_def compute_crc_def crc16_arc_Nil Let_def)

lemma header_fields_0x9C: "header_fields 0x9C = Returns (FRAME, 3, U8_INT)"
  by (simp add: header_fields_eval)

lemma header_fields_0x84: "header_fields 0x84 = Returns (OK, 1, U8_INT)"
  by (simp add: header_fields_eval)

lemma header_fields_0x44: "header_fields 0x44 = Returns (OK, 2, U8_INT)"
  by (simp add: header_fields_eval)

lemma header_fields_0xC4: "header_fields 0xC4 = ReturnsNone ProtocolCheck"
  by (simp add: header_fields_eval)

lemma serialize_placeholder:
  "serialize (Packet_init 0 OK empty_u8) =
     Inr [0x49, 0x4E, 0x55, 0x84, 0, 0, 0, 0, 0, 0, 0, 0, 0, 0, 0, 0,
          0, 0, 0x4E, 0x45, 0x4B, 0x4F]"
  unfolding Packet_init_empty_u8
  by (simp add: empty_u8_def serialize_def header_byte_def PROTOCOL_VER_def
      fits_I_def fits_H_def payload_length_def wire_def
      START_MAGIC_WORD_def END_MAGIC_WORD_def le_bytes4_def le_bytes2_def)

lemma deserialize_placeholder:
  "deserialize [0x49, 0x4E, 0x55, 0x84, 0, 0, 0, 0, 0, 0, 0, 0, 0, 0, 0, 0,
                0, 0, 0x4E, 0x45, 0x4B, 0x4F] =
     Returns \<lparr>frame_number = 0, packet_type = OK, payload_dtype = U8_INT,
              frame_shape = [0, 0], frame_channel_count = 1,
              payload = \<lparr>nd_shape = [0, 0], nd_dtype = U8_INT, nd_bytes = []\<rparr>,
              payload_crc = 0\<rparr>"
  by (simp add: deserialize_eval header_fields_0x84)

lemma deserialize_version_01:
  "deserialize [0x49, 0x4E, 0x55, 0x44, 0, 0, 0, 0, 0, 0, 0, 0, 0, 0, 0, 0,
                0, 0, 0x4E, 0x45, 0x4B, 0x4F] =
     Returns \<lparr>frame_number = 0, packet_type = OK, payload_dtype = U8_INT,
              frame_shape = [0, 0, 2], frame_channel_count = 2,
              payload = \<lparr>nd_shape = [0, 0, 2], nd_dtype = U8_INT, nd_bytes = []\<rparr>,
              payload_crc = 0\<rparr>"
  by (simp add: deserialize_eval header_fields_0x44)

lemma deserialize_bad_length:
  "deserialize [0x49, 0x4E, 0x55, 0x84, 0, 0, 0, 0, 0, 0, 0, 0, 1, 0, 0, 0,
                0, 0, 0x4E, 0x45, 0x4B, 0x4F] = Raises StructError"
  by (simp add: deserialize_eval)

section \<open>Claims about single packets\<close>

text \<open>
  C2 (as the code has it). Serializing \<open>Packet(0xFA, FRAME, 2x2x3 array of u8 all equal to 4)\<close>
  gives 34 bytes: \<open>INU\<close>, the header byte 0x9C (version 10, type 01, channel count 11,
  dtype 00), frame number \<open>FA 00 00 00\<close>, the two shape entries \<open>02 00 02 00\<close>, payload length
  \<open>0C 00 00 00\<close>, twelve bytes 04, the CRC bytes \<open>60 6F\<close> (CRC-16/ARC of twelve bytes 04 is
  0x6F60), and \<open>NEKO\<close>.
\<close>

theorem serialize_scenario_S1:
  "crc16_arc (nd_bytes og_payload) = 0x6F60
   \<and> serialize (Packet_init 0xFA FRAME og_payload) =
       Inr [0x49, 0x4E, 0x55, 0x9C, 0xFA, 0, 0, 0, 2, 0, 2, 0, 0x0C, 0, 0, 0,
            4, 4, 4, 4, 4, 4, 4, 4, 4, 4, 4, 4, 0x60, 0x6F, 0x4E, 0x45, 0x4B, 0x4F]"
  using serialize_og_payload crc16_arc_og_payload by (simp add: og_payload_def)

text \<open>
  C2 as stated fails: the serialized bytes are not the 34 bytes of scenario S1 with header
  byte 0xA4 and CRC bytes \<open>A3 4F\<close>.
\<close>

theorem serialize_scenario_S1_counterexample:
  "serialize (Packet_init 0xFA FRAME og_payload) \<noteq>
       Inr [0x49, 0x4E, 0x55, 0xA4, 0xFA, 0, 0, 0, 2, 0, 2, 0, 0x0C, 0, 0, 0,
            4, 4, 4, 4, 4, 4, 4, 4, 4, 4, 4, 4, 0xA3, 0x4F, 0x4E, 0x45, 0x4B, 0x4F]"
  using serialize_og_payload by simp

text \<open>
  C3 at a failing input: the 22 bytes of the serialized empty placeholder packet with the
  version bits of the header byte changed from 10 to 01 (0x84 becomes 0x44) are not rejected:
  \<open>deserialize\<close> returns a packet. The digit string of 0x44 has seven digits, so its first
  two digits are \<open>10\<close>.
\<close>

theorem deserialize_accepts_version_01:
  "bin_digits 0x44 = ''1000100''
   \<and> deserialize [0x49, 0x4E, 0x55, 0x44, 0, 0, 0, 0, 0, 0, 0, 0, 0, 0, 0, 0,
                  0, 0, 0x4E, 0x45, 0x4B, 0x4F] =
       Returns \<lparr>frame_number = 0, packet_type = OK, payload_dtype = U8_INT,
                frame_shape = [0, 0, 2], frame_channel_count = 2,
                payload = \<lparr>nd_shape = [0, 0, 2], nd_dtype = U8_INT, nd_bytes = []\<rparr>,
                payload_crc = 0\<rparr>"
  using deserialize_version_01 by (simp add: bin_digits_eval)

lemma placeholder_not_roundtrips: "\<not> roundtrips (Packet_init 0 OK empty_u8)"
proof -
  have "roundtrips (Packet_init 0 OK empty_u8) =
      packet_eq \<lparr>frame_number = 0, packet_type = OK, payload_dtype = U8_INT,
              frame_shape = [0, 0], frame_channel_count = 1,
              payload = \<lparr>nd_shape = [0, 0], nd_dtype = U8_INT, nd_bytes = []\<rparr>,
              payload_crc = 0\<rparr> (Packet_init 0 OK empty_u8)"
    by (simp only: roundtrips_def serialize_placeholder deserialize_placeholder
        sum.case outcome.case)
  then show ?thesis
    unfolding Packet_init_empty_u8 by (simp add: packet_eq_def empty_u8_def)
qed

lemma placeholder_decoded:
  "\<exists>data q. serialize (Packet_init 0 OK empty_u8) = Inr data \<and> length data = 22
         \<and> deserialize data = Returns q
         \<and> frame_number q = 0 \<and> packet_type q = OK \<and> payload_crc q = 0
         \<and> nd_bytes (payload q) = []
         \<and> nd_shape (payload q) \<noteq> nd_shape (payload (Packet_init 0 OK empty_u8))"
proof -
  have "nd_shape (payload (Packet_init 0 OK empty_u8)) = [0]"
    unfolding Packet_init_empty_u8 by (simp add: empty_u8_def)
  then show ?thesis
    by (simp only: serialize_placeholder sum.inject ex_simps simp_thms)
       (simp add: deserialize_placeholder)
qed

text \<open>
  C5 (as the code has it). The packet built from the empty u8 array has frame shape \<open>(0, 0)\<close>,
  payload length 0 and CRC 0, the CRC-16/ARC of the empty byte string; it serializes to 22
  bytes; \<open>deserialize\<close> of these bytes returns a packet with the same frame number, packet
  type and CRC and an empty payload, whose payload shape differs from \<open>(0,)\<close>, so that it is
  not equal to the packet under \<open>__eq__\<close>.
\<close>

theorem empty_payload_packet:
  "frame_shape (Packet_init 0 OK empty_u8) = [0, 0]
   \<and> payload_length (Packet_init 0 OK empty_u8) = 0
   \<and> payload_crc (Packet_init 0 OK empty_u8) = 0
   \<and> crc16_arc [] = 0
   \<and> (\<exists>data q. serialize (Packet_init 0 OK empty_u8) = Inr data \<and> length data = 22
         \<and> deserialize data = Returns q
         \<and> frame_number q = 0 \<and> packet_type q = OK \<and> payload_crc q = 0
         \<and> nd_bytes (payload q) = []
         \<and> nd_shape (payload q) \<noteq> nd_shape (payload (Packet_init 0 OK empty_u8)))
   \<and> \<not> roundtrips (Packet_init 0 OK empty_u8)"
  using placeholder_not_roundtrips placeholder_decoded
  unfolding Packet_init_empty_u8
  by (simp add: payload_length_def empty_u8_def crc16_arc_Nil)

text \<open>
  C5 as stated fails: the packet built from the empty u8 array has channel count 1, and
  \<open>deserialize(serialize(p)) == p\<close> is false for it.
\<close>

theorem empty_payload_packet_counterexample:
  "frame_channel_count (Packet_init 0 OK empty_u8) = 1
   \<and> \<not> roundtrips (Packet_init 0 OK empty_u8)"
  using placeholder_not_roundtrips unfolding Packet_init_empty_u8 by simp

text \<open>
  C6 (as the code has it). A buffer whose length is not 22 plus the payload length stored
  at offset 12 makes \<open>deserialize\<close> raise \<open>struct.error\<close>: it returns neither a packet nor
  \<open>None\<close>.
\<close>

theorem deserialize_length_mismatch:
  assumes "length raw_packet \<noteq> 22 + from_le (slice 12 16 raw_packet)"
  shows "deserialize raw_packet = Raises StructError"
  using assms by (simp add: deserialize_def deserialize_parse_def unpack_def PAYLOAD_LEN_IDX_def)

theorem deserialize_length_mismatch_witness:
  "length [0x49, 0x4E, 0x55, 0x84, 0, 0, 0, 0, 0, 0, 0, 0, 1, 0, 0, 0,
           0, 0, 0x4E, 0x45, 0x4B, 0x4F :: byte]
     \<noteq> 22 + from_le (slice 12 16 [0x49, 0x4E, 0x55, 0x84, 0, 0, 0, 0, 0, 0, 0, 0, 1, 0, 0, 0,
                                 0, 0, 0x4E, 0x45, 0x4B, 0x4F])
   \<and> deserialize [0x49, 0x4E, 0x55, 0x84, 0, 0, 0, 0, 0, 0, 0, 0, 1, 0, 0, 0,
                  0, 0, 0x4E, 0x45, 0x4B, 0x4F] = Raises StructError"
proof -
  have h: "length [0x49, 0x4E, 0x55, 0x84, 0, 0, 0, 0, 0, 0, 0, 0, 1, 0, 0, 0,
           0, 0, 0x4E, 0x45, 0x4B, 0x4F :: byte]
     \<noteq> 22 + from_le (slice 12 16 [0x49, 0x4E, 0x55, 0x84, 0, 0, 0, 0, 0, 0, 0, 0, 1, 0, 0, 0,
                                 0, 0, 0x4E, 0x45, 0x4B, 0x4F])"
    by (simp add: slice_def)
  from h deserialize_length_mismatch [OF h] show ?thesis
    by blast
qed

text \<open>
  C6 as stated fails: the serialized empty placeholder packet with its payload length field
  set to 1 is answered with the exception \<open>struct.error\<close>, not with the return value \<open>None\<close>.
\<close>

theorem deserialize_length_mismatch_counterexample:
  "\<not> is_None (deserialize [0x49, 0x4E, 0x55, 0x84, 0, 0, 0, 0, 0, 0, 0, 0, 1, 0, 0, 0,
                           0, 0, 0x4E, 0x45, 0x4B, 0x4F])
   \<and> deserialize [0x49, 0x4E, 0x55, 0x84, 0, 0, 0, 0, 0, 0, 0, 0, 1, 0, 0, 0,
                  0, 0, 0x4E, 0x45, 0x4B, 0x4F] = Raises StructError"
  by (simp add: deserialize_bad_length)

section \<open>Claims about regions\<close>

text \<open>
  C10. For points of two entries, \<open>normalize_region\<close> returns the point of the two minima
  followed by the point of the two maxima, and it is symmetric in its arguments.
\<close>

theorem normalize_region_min_max:
  assumes "length pt1 = 2" and "length pt2 = 2"
  shows "normalize_region pt1 pt2 =
           Inr [[min (pt1 ! 0) (pt2 ! 0), min (pt1 ! 1) (pt2 ! 1)],
                [max (pt1 ! 0) (pt2 ! 0), max (pt1 ! 1) (pt2 ! 1)]]
         \<and> normalize_region pt1 pt2 = normalize_region pt2 pt1"
proof -
  have eq: "normalize_region p q =
           Inr [[min (p ! 0) (q ! 0), min (p ! 1) (q ! 1)],
                [max (p ! 0) (q ! 0), max (p ! 1) (q ! 1)]]"
    if "length p = 2" "length q = 2" for p q :: "'a list"
    using that by (auto simp: normalize_region_def min_index_def Let_def min_def max_def)
  from eq [OF assms] eq [OF assms(2) assms(1)] show ?thesis
    by (simp add: min.commute max.commute)
qed

theorem normalize_region_min_max_witness:
  "length [5, 2 :: int] = 2 \<and> length [1, 7 :: int] = 2
   \<and> normalize_region [5, 2 :: int] [1, 7] = Inr [[1, 2], [5, 7]]
   \<and> normalize_region [5, 2 :: int] [1, 7] = normalize_region [1, 7] [5, 2]"
proof -
  have l1: "length [5, 2 :: int] = 2" and l2: "length [1, 7 :: int] = 2"
    by simp_all
  note t = normalize_region_min_max [OF l1 l2]
  have a: "normalize_region [5, 2 :: int] [1, 7] = Inr [[1, 2], [5, 7]]"
    using conjunct1 [OF t] by simp
  have b: "normalize_region [5, 2 :: int] [1, 7] = normalize_region [1, 7] [5, 2]"
    by (rule conjunct2 [OF t])
  show ?thesis
    by (intro conjI a b l1 l2)
qed

section \<open>The CRC comparison of the two decoders\<close>

lemma checksum_Nil: "checksum [] = 0"
  by (simp add: checksum_def)

lemma rcp_parse_empty:
  "rcp_deserialize_parse [0x69, 0x6E, 0x75, 0x80, 0, 0, 0, 0, 0, 0, 0, 0, 0, 0, 0, 0,
                          0, 0, 0x6E, 0x65, 0x6B, 0x6F] =
     Returns \<lparr>r_packet_type = ''OK'', r_frame_channel_count = 0, r_frame_number = 0,
              r_shape = [0, 0, 0],
              r_payload = \<lparr>rcp_shape = [0, 0, 0], rcp_bytes = []\<rparr>,
              r_payload_bin = [], r_payload_crc = 0\<rparr>"
  by (simp add: rcp_deserialize_parse_def from_be_def slice_def bin_digits_eval int_base2_def
      PROTOCOL_VER_def PacketType_of_def Let_def)

lemma parse_placeholder:
  "deserialize_parse [0x49, 0x4E, 0x55, 0x84, 0, 0, 0, 0, 0, 0, 0, 0, 0, 0, 0, 0,
                      0, 0, 0x4E, 0x45, 0x4B, 0x4F] =
     Returns \<lparr>p_packet_type = OK, p_frame_channel_count = 1, p_frame_number = 0,
              p_shape = [0, 0],
              p_payload = \<lparr>nd_shape = [0, 0], nd_dtype = U8_INT, nd_bytes = []\<rparr>,
              p_payload_dtype = U8_INT, p_payload_bin = [], p_payload_crc = 0\<rparr>"
  by (simp add: deserialize_parse_def unpack_def slice_def PAYLOAD_LEN_IDX_def
      frombuffer_def reshape_def nd_size_def Let_def header_fields_0x84)

text \<open>
  C7. When the older decoder reaches its CRC comparison it returns \<open>None\<close> exactly when the
  checksum of the payload bytes equals the stored CRC (and a packet otherwise); when the
  newer decoder reaches its CRC comparison it returns \<open>None\<close> exactly when the CRC-16/ARC of the
  payload bytes differs from the stored CRC (and a packet otherwise).
\<close>

theorem crc_comparison_polarity:
  "(rcp_deserialize_parse raw_old = Returns f \<longrightarrow>
      (is_None (rcp_deserialize raw_old) \<longleftrightarrow> r_payload_crc f = checksum (r_payload_bin f))
      \<and> (r_payload_crc f \<noteq> checksum (r_payload_bin f)
           \<longrightarrow> rcp_deserialize raw_old = Returns (rcp_assign_fields f)))
   \<and> (deserialize_parse raw_new = Returns g \<longrightarrow>
      (is_None (deserialize raw_new) \<longleftrightarrow> p_payload_crc g \<noteq> crc16_arc (p_payload_bin g))
      \<and> (p_payload_crc g = crc16_arc (p_payload_bin g)
           \<longrightarrow> deserialize raw_new = Returns (assign_fields g)))"
  by (simp add: rcp_deserialize_def deserialize_def)

theorem crc_comparison_polarity_witness:
  "rcp_deserialize_parse [0x69, 0x6E, 0x75, 0x80, 0, 0, 0, 0, 0, 0, 0, 0, 0, 0, 0, 0,
                          0, 0, 0x6E, 0x65, 0x6B, 0x6F] =
     Returns \<lparr>r_packet_type = ''OK'', r_frame_channel_count = 0, r_frame_number = 0,
              r_shape = [0, 0, 0],
              r_payload = \<lparr>rcp_shape = [0, 0, 0], rcp_bytes = []\<rparr>,
              r_payload_bin = [], r_payload_crc = 0\<rparr>
   \<and> is_None (rcp_deserialize [0x69, 0x6E, 0x75, 0x80, 0, 0, 0, 0, 0, 0, 0, 0, 0, 0, 0, 0,
                                0, 0, 0x6E, 0x65, 0x6B, 0x6F])
   \<and> deserialize_parse [0x49, 0x4E, 0x55, 0x84, 0, 0, 0, 0, 0, 0, 0, 0, 0, 0, 0, 0,
                        0, 0, 0x4E, 0x45, 0x4B, 0x4F] =
     Returns \<lparr>p_packet_type = OK, p_frame_channel_count = 1, p_frame_number = 0,
              p_shape = [0, 0],
              p_payload = \<lparr>nd_shape = [0, 0], nd_dtype = U8_INT, nd_bytes = []\<rparr>,
              p_payload_dtype = U8_INT, p_payload_bin = [], p_payload_crc = 0\<rparr>
   \<and> \<not> is_None (deserialize [0x49, 0x4E, 0x55, 0x84, 0, 0, 0, 0, 0, 0, 0, 0, 0, 0, 0, 0,
                               0, 0, 0x4E, 0x45, 0x4B, 0x4F])"
  using crc_comparison_polarity [
      of "[0x69, 0x6E, 0x75, 0x80, 0, 0, 0, 0, 0, 0, 0, 0, 0, 0, 0, 0,
             0, 0, 0x6E, 0x65, 0x6B, 0x6F]"
          "\<lparr>r_packet_type = ''OK'', r_frame_channel_count = 0, r_frame_number = 0,
              r_shape = [0, 0, 0],
              r_payload = \<lparr>rcp_shape = [0, 0, 0], rcp_bytes = []\<rparr>,
              r_payload_bin = [], r_payload_crc = 0\<rparr>"
          "[0x49, 0x4E, 0x55, 0x84, 0, 0, 0, 0, 0, 0, 0, 0, 0, 0, 0, 0,
            0, 0, 0x4E, 0x45, 0x4B, 0x4F]"
          "\<lparr>p_packet_type = OK, p_frame_channel_count = 1, p_frame_number = 0,
              p_shape = [0, 0],
              p_payload = \<lparr>nd_shape = [0, 0], nd_dtype = U8_INT, nd_bytes = []\<rparr>,
              p_payload_dtype = U8_INT, p_payload_bin = [], p_payload_crc = 0\<rparr>"]
    rcp_parse_empty parse_placeholder
  by (simp add: checksum_Nil crc16_arc_Nil)

section \<open>The request handler\<close>

lemma acquire_loop_Cons:
  assumes "current_data_to_send s = None" and "frames_queue s = item # rest"
  shows "acquire_loop s = Some (s\<lparr>current_data_to_send := Some item, frames_queue := rest\<rparr>)"
proof -
  have "acquire_loop s =
      acquire_loop (s\<lparr>current_data_to_send := Some item, frames_queue := rest\<rparr>)"
    using assms by (subst acquire_loop.simps) simp
  also have "\<dots> = Some (s\<lparr>current_data_to_send := Some item, frames_queue := rest\<rparr>)"
    by (subst acquire_loop.simps) simp
  finally show ?thesis .
qed

lemma update_new_data_to_send_Cons:
  assumes "frames_queue s = item # rest"
  shows "update_new_data_to_send s =
           Some (s\<lparr>current_data_to_send := Some item, frames_queue := rest\<rparr>, True)"
proof -
  have "acquire_loop (s\<lparr>current_data_to_send := None\<rparr>) =
      Some (s\<lparr>current_data_to_send := None\<rparr>
              \<lparr>current_data_to_send := Some item, frames_queue := rest\<rparr>)"
    by (rule acquire_loop_Cons) (simp_all add: assms)
  then show ?thesis
    by (simp add: update_new_data_to_send_def)
qed

lemma send_current_data_keeps:
  "frames_queue (fst (send_current_data s)) = frames_queue s
   \<and> current_data_to_send (fst (send_current_data s)) = current_data_to_send s"
  by (simp add: send_current_data_def split: option.splits prod.splits sum.splits)

lemma handle_request_not_OK:
  assumes "packet_type req \<noteq> OK"
  shows "\<exists>s' fl. handle_request req s = Some (s', fl)
           \<and> frames_queue s' = frames_queue s
           \<and> current_data_to_send s' = current_data_to_send s"
proof (cases "send_current_data s")
  case (Pair t e)
  with send_current_data_keeps [of s] have
    "frames_queue t = frames_queue s \<and> current_data_to_send t = current_data_to_send s"
    by simp
  with Pair assms show ?thesis
    by (simp add: handle_request_def split: option.splits)
qed

lemma handle_request_OK:
  assumes "packet_type req = OK" and "frames_queue s = item # rest"
  shows "\<exists>s' fl. handle_request req s = Some (s', fl)
           \<and> current_data_to_send s' = Some item \<and> frames_queue s' = rest"
proof (cases "send_current_data (s\<lparr>current_data_to_send := Some item, frames_queue := rest\<rparr>)")
  case (Pair t e)
  with send_current_data_keeps
         [of "s\<lparr>current_data_to_send := Some item, frames_queue := rest\<rparr>"]
  have "frames_queue t = rest \<and> current_data_to_send t = Some item"
    by simp
  with Pair assms show ?thesis
    by (simp add: handle_request_def update_new_data_to_send_Cons split: option.splits)
qed

lemma handle_request_REQUEST:
  assumes "packet_type req = REQUEST" and "current_data_to_send s = Some (fnum, img)"
    and "serialize (Packet_init fnum FRAME img) = Inr data"
  shows "handle_request req s = Some (s\<lparr>sent := sent s @ [data]\<rparr>, Continue)"
  using assms by (simp add: handle_request_def send_current_data_def)

text \<open>
  C8. On a REQUEST packet the handler sends the serialized FRAME packet built from
  \<open>current_data_to_send\<close> (the same frame number and frame) and changes nothing else: the
  frames queue and \<open>current_data_to_send\<close> are as before. No packet type other than OK changes
  the queue or \<open>current_data_to_send\<close>. On an OK packet with an item in the queue,
  \<open>current_data_to_send\<close> becomes the head of the queue and the queue loses it.
\<close>

theorem request_replays_current_data:
  "(packet_type req = REQUEST \<and> current_data_to_send s = Some (fnum, img)
      \<and> serialize (Packet_init fnum FRAME img) = Inr data
      \<longrightarrow> handle_request req s = Some (s\<lparr>sent := sent s @ [data]\<rparr>, Continue))
   \<and> (packet_type req \<noteq> OK
      \<longrightarrow> (\<exists>s' fl. handle_request req s = Some (s', fl)
            \<and> frames_queue s' = frames_queue s
            \<and> current_data_to_send s' = current_data_to_send s))
   \<and> (packet_type req = OK \<and> frames_queue s = item # rest
      \<longrightarrow> (\<exists>s' fl. handle_request req s = Some (s', fl)
            \<and> current_data_to_send s' = Some item \<and> frames_queue s' = rest))"
  using handle_request_REQUEST [of req s fnum img data] handle_request_not_OK [of req s]
    handle_request_OK [of req s item rest]
  by blast

theorem request_replays_current_data_witness:
  "handle_request (Packet_init 0 REQUEST empty_u8)
      \<lparr>frames_queue = [(1, og_payload)], current_data_to_send = Some (0xFA, og_payload),
       halt_server_event = False, socket_closed = False, sent = []\<rparr> =
     Some (\<lparr>frames_queue = [(1, og_payload)], current_data_to_send = Some (0xFA, og_payload),
            halt_server_event = False, socket_closed = False,
            sent = [[0x49, 0x4E, 0x55, 0x9C, 0xFA, 0, 0, 0, 2, 0, 2, 0, 0x0C, 0, 0, 0,
                     4, 4, 4, 4, 4, 4, 4, 4, 4, 4, 4, 4, 0x60, 0x6F, 0x4E, 0x45, 0x4B, 0x4F]]\<rparr>,
           Continue)
   \<and> (\<exists>s' fl. handle_request (Packet_init 0 OK empty_u8)
          \<lparr>frames_queue = [(1, og_payload)], current_data_to_send = Some (0xFA, og_payload),
           halt_server_event = False, socket_closed = False, sent = []\<rparr> = Some (s', fl)
        \<and> current_data_to_send s' = Some (1, og_payload) \<and> frames_queue s' = [])"
proof -
  have req: "packet_type (Packet_init 0 REQUEST empty_u8) = REQUEST"
    and ok: "packet_type (Packet_init 0 OK empty_u8) = OK"
    by (simp_all add: Packet_init_def Let_def)
  note t1 = request_replays_current_data
    [of "Packet_init 0 REQUEST empty_u8"
        "\<lparr>frames_queue = [(1, og_payload)], current_data_to_send = Some (0xFA, og_payload),
          halt_server_event = False, socket_closed = False, sent = []\<rparr>"
        "0xFA" og_payload
        "[0x49, 0x4E, 0x55, 0x9C, 0xFA, 0, 0, 0, 2, 0, 2, 0, 0x0C, 0, 0, 0,
          4, 4, 4, 4, 4, 4, 4, 4, 4, 4, 4, 4, 0x60, 0x6F, 0x4E, 0x45, 0x4B, 0x4F]"]
  note t2 = request_replays_current_data
    [of "Packet_init 0 OK empty_u8"
        "\<lparr>frames_queue = [(1, og_payload)], current_data_to_send = Some (0xFA, og_payload),
          halt_server_event = False, socket_closed = False, sent = []\<rparr>"
        _ _ _ "(1, og_payload)" "[]"]
  from t1 req serialize_og_payload have a:
    "handle_request (Packet_init 0 REQUEST empty_u8)
      \<lparr>frames_queue = [(1, og_payload)], current_data_to_send = Some (0xFA, og_payload),
       halt_server_event = False, socket_closed = False, sent = []\<rparr> =
     Some (\<lparr>frames_queue = [(1, og_payload)], current_data_to_send = Some (0xFA, og_payload),
            halt_server_event = False, socket_closed = False,
            sent = [[0x49, 0x4E, 0x55, 0x9C, 0xFA, 0, 0, 0, 2, 0, 2, 0, 0x0C, 0, 0, 0,
                     4, 4, 4, 4, 4, 4, 4, 4, 4, 4, 4, 4, 0x60, 0x6F, 0x4E, 0x45, 0x4B, 0x4F]]\<rparr>,
           Continue)"
    by simp
  from t2 ok have b:
    "\<exists>s' fl. handle_request (Packet_init 0 OK empty_u8)
          \<lparr>frames_queue = [(1, og_payload)], current_data_to_send = Some (0xFA, og_payload),
           halt_server_event = False, socket_closed = False, sent = []\<rparr> = Some (s', fl)
        \<and> current_data_to_send s' = Some (1, og_payload) \<and> frames_queue s' = []"
    by simp
  from a b show ?thesis
    by (rule conjI)
qed

section \<open>The frame numbers of the video reader\<close>

lemma replay_append:
  "replay opened frames st (es @ es') =
     (case replay opened frames st es of
        None \<Rightarrow> None
      | Some st' \<Rightarrow> replay opened frames st' es')"
  by (induction opened frames st es rule: replay.induct) simp_all

lemma replay_puts:
  assumes "replay opened frames (pos, due) es = Some st" and "Rewind \<notin> set es"
  shows "es = map (\<lambda>j. Put (due + j) (frames ! (pos + j))) [0..<length es]"
  using assms
proof (induction es arbitrary: pos due)
  case Nil
  then show ?case by simp
next
  case (Cons e es)
  from Cons.prems(2) obtain frame_id frame where e: "e = Put frame_id frame"
    by (cases e) auto
  with Cons.prems(1) have fit: "frame_id = due" "frame = frames ! pos"
      and rest: "replay opened frames (Suc pos, Suc due) es = Some st"
    by (auto split: if_splits)
  from Cons.IH [OF rest] Cons.prems(2)
  have "es = map (\<lambda>j. Put (Suc due + j) (frames ! (Suc pos + j))) [0..<length es]"
    by simp
  then have "e # es =
      Put (due + 0) (frames ! (pos + 0))
      # map (\<lambda>j. Put (due + Suc j) (frames ! (pos + Suc j))) [0..<length es]"
    using e fit by simp
  also have "\<dots> = map (\<lambda>j. Put (due + j) (frames ! (pos + j))) [0..<Suc (length es)]"
    by (rule map_upt_Suc [symmetric])
  finally show ?case
    by simp
qed

lemma rewinds_simps [simp]:
  "rewinds [] = 0"
  "rewinds (Put frame_id frame # es) = rewinds es"
  "rewinds (Rewind # es) = Suc (rewinds es)"
  "rewinds (es @ es') = rewinds es + rewinds es'"
  by (simp_all add: rewinds_def)

lemma rewinds_none:
  assumes "Rewind \<notin> set es"
  shows "rewinds es = 0"
  using assms by (induction es) (auto simp: rewinds_def)

lemma read_frames_effects:
  "\<exists>es. effects (read_frames s frame_id) = effects s @ es
     \<and> Rewind \<notin> set es
     \<and> replay opened (video_frames s) (video_pos s, frame_id) es =
         Some (video_pos (read_frames s frame_id), frame_id + length es)
     \<and> video_frames (read_frames s frame_id) = video_frames s
     \<and> loop_video (read_frames s frame_id) = loop_video s
     \<and> is_opened (read_frames s frame_id) = is_opened s
     \<and> halt_at (read_frames s frame_id) = halt_at s
     \<and> reset_at (read_frames s frame_id) = reset_at s
     \<and> clock (read_frames s frame_id) = clock s + length es + 1
     \<and> (is_opened s \<longrightarrow>
          length (video_frames s) \<le> video_pos (read_frames s frame_id)
          \<or> halt_at s < clock (read_frames s frame_id)
          \<or> reset_at s < clock (read_frames s frame_id))"
proof (induction s frame_id rule: read_frames.induct)
  case (1 s frame_id)
  show ?case
  proof (cases "is_opened s \<and> \<not> halt_is_set s \<and> \<not> reset_is_set s
                \<and> video_pos s < length (video_frames s)")
    case True
    let ?s' = "tick (s\<lparr>effects := effects s @ [Put frame_id (video_frames s ! video_pos s)],
                       video_pos := Suc (video_pos s)\<rparr>)"
    let ?r = "read_frames ?s' (frame_id + 1)"
    from True have step: "read_frames s frame_id = ?r"
      by (subst read_frames.simps) simp
    from True "1.IH" obtain es where
      es: "effects ?r = effects ?s' @ es"
        "Rewind \<notin> set es"
        "replay opened (video_frames ?s') (video_pos ?s', frame_id + 1) es =
           Some (video_pos ?r, frame_id + 1 + length es)"
      and rest: "video_frames ?r = video_frames ?s'"
        "loop_video ?r = loop_video ?s'"
        "is_opened ?r = is_opened ?s'"
        "halt_at ?r = halt_at ?s'"
        "reset_at ?r = reset_at ?s'"
        "clock ?r = clock ?s' + length es + 1"
        "is_opened ?s' \<longrightarrow> length (video_frames ?s') \<le> video_pos ?r
          \<or> halt_at ?s' < clock ?r \<or> reset_at ?s' < clock ?r"
      by blast
    let ?es = "Put frame_id (video_frames s ! video_pos s) # es"
    have a: "effects (read_frames s frame_id) = effects s @ ?es"
      using es(1) step by (simp add: tick_def)
    have b: "Rewind \<notin> set ?es"
      using es(2) by simp
    have c: "replay opened (video_frames s) (video_pos s, frame_id) ?es =
        Some (video_pos (read_frames s frame_id), frame_id + length ?es)"
      using es(3) True step by (simp add: tick_def)
    from rest step have d:
      "video_frames (read_frames s frame_id) = video_frames s"
      "loop_video (read_frames s frame_id) = loop_video s"
      "is_opened (read_frames s frame_id) = is_opened s"
      "halt_at (read_frames s frame_id) = halt_at s"
      "reset_at (read_frames s frame_id) = reset_at s"
      "clock (read_frames s frame_id) = clock s + length ?es + 1"
      "is_opened s \<longrightarrow>
          length (video_frames s) \<le> video_pos (read_frames s frame_id)
          \<or> halt_at s < clock (read_frames s frame_id)
          \<or> reset_at s < clock (read_frames s frame_id)"
      by (simp_all add: tick_def)
    from a b c d show ?thesis
      by blast
  next
    case False
    then have "read_frames s frame_id = tick s"
      by (subst read_frames.simps) auto
    with False show ?thesis
      by (auto simp: tick_def halt_is_set_def reset_is_set_def)
  qed
qed

lemma run_effects:
  "\<exists>es due. effects (run s) = effects s @ es
     \<and> replay (is_opened s) (video_frames s) (video_pos s, 0) es =
         Some (video_pos (run s), due)
     \<and> (\<not> loop_video s \<longrightarrow> Rewind \<notin> set es)
     \<and> clock (run s) = clock s + length es + rewinds es + 2
     \<and> (loop_video s \<longrightarrow> halt_at s < clock (run s) \<or> reset_at s < clock (run s))
     \<and> (is_opened s \<longrightarrow>
          length (video_frames s) \<le> video_pos (run s)
          \<or> halt_at s + 1 < clock (run s) \<or> reset_at s + 1 < clock (run s))"
proof (induction s rule: run.induct)
  case (1 s)
  let ?s1 = "read_frames s 0"
  from read_frames_effects [of s 0 "is_opened s"] obtain es1 where
    es1: "effects ?s1 = effects s @ es1"
      "Rewind \<notin> set es1"
      "replay (is_opened s) (video_frames s) (video_pos s, 0) es1 =
         Some (video_pos ?s1, 0 + length es1)"
    and same: "video_frames ?s1 = video_frames s"
      "loop_video ?s1 = loop_video s"
      "is_opened ?s1 = is_opened s"
      "halt_at ?s1 = halt_at s"
      "reset_at ?s1 = reset_at s"
    and time: "clock ?s1 = clock s + length es1 + 1"
    and left: "is_opened s \<longrightarrow> length (video_frames s) \<le> video_pos ?s1
          \<or> halt_at s < clock ?s1 \<or> reset_at s < clock ?s1"
    by blast
  show ?case
  proof (cases "loop_video ?s1 \<and> \<not> halt_is_set ?s1 \<and> \<not> reset_is_set ?s1")
    case True
    let ?s2 = "tick (?s1\<lparr>video_pos := 0, effects := effects ?s1 @ [Rewind]\<rparr>)"
    from True have step: "run s = run ?s2"
      by (subst run.simps) (simp add: Let_def)
    from True "1.IH" [OF refl] obtain es2 due where
      es2: "effects (run ?s2) = effects ?s2 @ es2"
        "replay (is_opened ?s2) (video_frames ?s2) (video_pos ?s2, 0) es2 =
           Some (video_pos (run ?s2), due)"
        "clock (run ?s2) = clock ?s2 + length es2 + rewinds es2 + 2"
        "loop_video ?s2 \<longrightarrow> halt_at ?s2 < clock (run ?s2) \<or> reset_at ?s2 < clock (run ?s2)"
        "is_opened ?s2 \<longrightarrow> length (video_frames ?s2) \<le> video_pos (run ?s2)
          \<or> halt_at ?s2 + 1 < clock (run ?s2) \<or> reset_at ?s2 + 1 < clock (run ?s2)"
      by blast
    from True left same have at_end: "is_opened s \<longrightarrow> length (video_frames s) \<le> video_pos ?s1"
      by (auto simp: halt_is_set_def reset_is_set_def)
    have a: "effects (run s) = effects s @ (es1 @ Rewind # es2)"
      using step es2(1) es1(1) by (simp add: tick_def)
    have b: "replay (is_opened s) (video_frames s) (video_pos s, 0) (es1 @ Rewind # es2) =
        Some (video_pos (run s), due)"
      using es1(3) es2(2) at_end same step by (simp add: replay_append tick_def)
    have c: "loop_video s"
      using True same by simp
    have d: "clock (run s) =
        clock s + length (es1 @ Rewind # es2) + rewinds (es1 @ Rewind # es2) + 2"
      using es2(3) step time rewinds_none [OF es1(2)] by (simp add: tick_def)
    have e: "halt_at s < clock (run s) \<or> reset_at s < clock (run s)"
      using es2(4) True step same by (simp add: tick_def)
    have f: "is_opened s \<longrightarrow> length (video_frames s) \<le> video_pos (run s)
          \<or> halt_at s + 1 < clock (run s) \<or> reset_at s + 1 < clock (run s)"
      using es2(5) step same by (simp add: tick_def)
    from a b c d e f show ?thesis
      by blast
  next
    case False
    then have stop: "run s = (tick ?s1)\<lparr>is_opened := False\<rparr>"
      by (subst run.simps) (auto simp: Let_def)
    have a: "effects (run s) = effects s @ es1"
      using stop es1(1) by (simp add: tick_def)
    have b: "replay (is_opened s) (video_frames s) (video_pos s, 0) es1 =
        Some (video_pos (run s), length es1)"
      using stop es1(3) by (simp add: tick_def)
    have c: "clock (run s) = clock s + length es1 + rewinds es1 + 2"
      using stop time rewinds_none [OF es1(2)] by (simp add: tick_def)
    have d: "loop_video s \<longrightarrow> halt_at s < clock (run s) \<or> reset_at s < clock (run s)"
      using False same stop by (auto simp: tick_def halt_is_set_def reset_is_set_def)
    have e: "is_opened s \<longrightarrow> length (video_frames s) \<le> video_pos (run s)
          \<or> halt_at s + 1 < clock (run s) \<or> reset_at s + 1 < clock (run s)"
      using left same stop by (auto simp: tick_def)
    from a b c d e es1(2) show ?thesis
      by blast
  qed
qed

lemma run_follows_feed:
  "\<exists>es due. effects (run s) = effects s @ es
     \<and> replay (is_opened s) (video_frames s) (video_pos s, 0) es =
         Some (video_pos (run s), due)
     \<and> (\<not> loop_video s \<longrightarrow>
          es = map (\<lambda>j. Put j (video_frames s ! (video_pos s + j))) [0..<length es])
     \<and> clock (run s) = clock s + length es + rewinds es + 2
     \<and> (loop_video s \<longrightarrow> halt_at s < clock (run s) \<or> reset_at s < clock (run s))
     \<and> (is_opened s \<longrightarrow>
          length (video_frames s) \<le> video_pos (run s)
          \<or> halt_at s + 1 < clock (run s) \<or> reset_at s + 1 < clock (run s))"
proof -
  from run_effects [of s] obtain es due where
    es: "effects (run s) = effects s @ es"
      "replay (is_opened s) (video_frames s) (video_pos s, 0) es =
         Some (video_pos (run s), due)"
      "\<not> loop_video s \<longrightarrow> Rewind \<notin> set es"
      "clock (run s) = clock s + length es + rewinds es + 2"
      "loop_video s \<longrightarrow> halt_at s < clock (run s) \<or> reset_at s < clock (run s)"
      "is_opened s \<longrightarrow> length (video_frames s) \<le> video_pos (run s)
          \<or> halt_at s + 1 < clock (run s) \<or> reset_at s + 1 < clock (run s)"
    by blast
  from replay_puts [OF es(2)] es(3)
  have "\<not> loop_video s \<longrightarrow>
      es = map (\<lambda>j. Put j (video_frames s ! (video_pos s + j))) [0..<length es]"
    by simp
  with es show ?thesis
    by blast
qed

text \<open>
  C9 (as the code has it). The effects of a run of the reader follow the feed: every item put
  on the queue carries the next frame of the feed and a frame number one greater than that
  of the item before it, starting with number 0 at the position the run starts from; a
  rewind of the feed sets the frame number back to 0 together with the read position, and
  (on an opened feed) comes only at the end of the feed. A reader that does not loop never
  rewinds: its items carry the numbers 0, 1, 2 and so on with the frames from its start
  position. The run makes one condition check for every item and two more for every pass
  over the feed; a looping reader ends only with the halt or reset event set at its last
  check, an opened reader only at the end of its feed or with an event set when it last tried
  to read. The same holds for the run that \<open>change_feed\<close> starts: it follows the new feed from
  position 0 and frame number 0.
\<close>

theorem run_frame_numbers:
  "(\<exists>es due. effects (run s) = effects s @ es
      \<and> replay (is_opened s) (video_frames s) (video_pos s, 0) es =
          Some (video_pos (run s), due)
      \<and> (\<not> loop_video s \<longrightarrow>
           es = map (\<lambda>j. Put j (video_frames s ! (video_pos s + j))) [0..<length es])
      \<and> clock (run s) = clock s + length es + rewinds es + 2
      \<and> (loop_video s \<longrightarrow> halt_at s < clock (run s) \<or> reset_at s < clock (run s))
      \<and> (is_opened s \<longrightarrow>
           length (video_frames s) \<le> video_pos (run s)
           \<or> halt_at s + 1 < clock (run s) \<or> reset_at s + 1 < clock (run s)))
   \<and> (change_feed s (Some frames) isvideo loopvideo delay = Inr s' \<longrightarrow>
       (\<exists>es due. effects s' = effects s @ es
          \<and> replay True frames (0, 0) es = Some (video_pos s', due)
          \<and> (\<not> loopvideo \<longrightarrow> es = map (\<lambda>j. Put j (frames ! j)) [0..<length es])
          \<and> clock s' = clock s + length es + rewinds es + 2
          \<and> (loopvideo \<longrightarrow> halt_at s < clock s' \<or> clock s + Suc delay < clock s')
          \<and> (length frames \<le> video_pos s'
               \<or> halt_at s + 1 < clock s' \<or> clock s + Suc delay + 1 < clock s')))"
proof -
  let ?t = "s\<lparr>video_frames := frames, video_pos := 0, is_opened := True,
               is_video := isvideo, loop_video := loopvideo,
               reset_at := clock s + Suc delay\<rparr>"
  from run_follows_feed [of ?t] have
    "change_feed s (Some frames) isvideo loopvideo delay = Inr s' \<longrightarrow>
       (\<exists>es due. effects s' = effects s @ es
          \<and> replay True frames (0, 0) es = Some (video_pos s', due)
          \<and> (\<not> loopvideo \<longrightarrow> es = map (\<lambda>j. Put j (frames ! j)) [0..<length es])
          \<and> clock s' = clock s + length es + rewinds es + 2
          \<and> (loopvideo \<longrightarrow> halt_at s < clock s' \<or> clock s + Suc delay < clock s')
          \<and> (length frames \<le> video_pos s'
               \<or> halt_at s + 1 < clock s' \<or> clock s + Suc delay + 1 < clock s'))"
    by (auto simp: change_feed_def start_def)
  with run_follows_feed [of s] show ?thesis
    by blast
qed

lemma run_two_frame_loop:
  "effects (run two_frame_loop) = [Put 0 10, Put 1 20, Rewind, Put 0 10]"
  by (simp add: run.simps read_frames.simps two_frame_loop_def halt_is_set_def
      reset_is_set_def tick_def Let_def)

theorem run_frame_numbers_witness:
  "loop_video two_frame_loop \<and> is_opened two_frame_loop
   \<and> effects (run two_frame_loop) = [Put 0 10, Put 1 20, Rewind, Put 0 10]
   \<and> replay True [10, 20] (0, 0) [Put 0 10, Put 1 20, Rewind, Put 0 10]
       = Some (video_pos (run two_frame_loop), 1)
   \<and> clock (run two_frame_loop) = 7
   \<and> \<not> loop_video (two_frame_loop\<lparr>loop_video := False\<rparr>)
   \<and> (\<exists>es. effects (run (two_frame_loop\<lparr>loop_video := False\<rparr>)) = es
        \<and> es = map (\<lambda>j. Put j ([10, 20] ! j)) [0..<length es])
   \<and> (\<exists>s' es. change_feed two_frame_loop (Some [7, 8]) True False 3 = Inr s'
        \<and> effects s' = es \<and> es = map (\<lambda>j. Put j ([7, 8] ! j)) [0..<length es])"
proof -
  let ?r = "two_frame_loop\<lparr>loop_video := False\<rparr>"
  let ?s' = "start (two_frame_loop\<lparr>video_frames := [7, 8], video_pos := 0, is_opened := True,
               is_video := True, loop_video := False,
               reset_at := clock two_frame_loop + Suc 3\<rparr>)"
  have h: "loop_video two_frame_loop" "is_opened two_frame_loop"
      "effects two_frame_loop = []" "video_frames two_frame_loop = [10, 20]"
      "video_pos two_frame_loop = 0" "clock two_frame_loop = 0"
    by (simp_all add: two_frame_loop_def)
  have h1: "\<not> loop_video ?r" "effects ?r = []" "video_frames ?r = [10, 20]" "video_pos ?r = 0"
    by (simp_all add: two_frame_loop_def)
  have h2: "change_feed two_frame_loop (Some [7, 8]) True False 3 = Inr ?s'"
    by (simp add: change_feed_def)
  from run_frame_numbers [of two_frame_loop "[7, 8]" True False 3 ?s'] h h2 obtain es due where
    a: "effects (run two_frame_loop) = es"
      "replay True [10, 20] (0, 0) es = Some (video_pos (run two_frame_loop), due)"
      "clock (run two_frame_loop) = length es + rewinds es + 2"
    and c: "\<exists>es. effects ?s' = es \<and> es = map (\<lambda>j. Put j ([7, 8] ! j)) [0..<length es]"
    by auto
  from a run_two_frame_loop have a':
    "replay True [10, 20] (0, 0) [Put 0 10, Put 1 20, Rewind, Put 0 10]
       = Some (video_pos (run two_frame_loop), 1)"
    "clock (run two_frame_loop) = 7"
    by auto
  from run_frame_numbers [of ?r "[7, 8]" True False 3 ?s'] h1 have b:
    "\<exists>es. effects (run ?r) = es \<and> es = map (\<lambda>j. Put j ([10, 20] ! j)) [0..<length es]"
    by auto
  from h(1,2) run_two_frame_loop a' h1(1) b c h2 show ?thesis
    by blast
qed

text \<open>
  C9 as stated fails: a looping reader on a video of two frames puts the frame numbers
  0, 1, 0 within a single run; this sequence is not strictly increasing.
\<close>

theorem run_frame_numbers_counterexample:
  "frame_numbers (put_items (run two_frame_loop)) = [0, 1, 0]
   \<and> \<not> sorted_wrt (<) (frame_numbers (put_items (run two_frame_loop)))"
  by (simp add: put_items_def run_two_frame_loop frame_numbers_def)

section \<open>Packing and unpacking\<close>

lemma length_le_bytes4 [simp]: "length (le_bytes4 n) = 4"
  by (simp add: le_bytes4_def)

lemma length_le_bytes2 [simp]: "length (le_bytes2 n) = 2"
  by (simp add: le_bytes2_def)

lemma from_le_le_bytes2:
  assumes "n < 2 ^ 16"
  shows "from_le (le_bytes2 n) = n"
proof -
  have "n div 256 < 256"
    using assms by simp
  then show ?thesis
    by (simp add: le_bytes2_def unat_of_nat)
qed

lemma from_le_le_bytes4:
  assumes "n < 2 ^ 32"
  shows "from_le (le_bytes4 n) = n"
proof -
  have "n div 16777216 < 256"
    using assms by simp
  then have "n div 16777216 mod 256 = n div 16777216"
    by simp
  moreover have "n div 65536 = n div 256 div 256" "n div 16777216 = n div 256 div 256 div 256"
    by (simp_all add: div_mult2_eq [symmetric])
  ultimately show ?thesis
    by (simp add: le_bytes4_def unat_of_nat)
qed

lemma length_wire: "length (wire hb fnum x y pl crc) = 22 + length pl"
  by (simp add: wire_def START_MAGIC_WORD_def END_MAGIC_WORD_def)

lemma unpack_wire:
  assumes "fnum < 2 ^ 32" and "x < 2 ^ 16" and "y < 2 ^ 16"
    and "length pl < 2 ^ 32" and "crc < 2 ^ 16"
  shows "unpack (wire hb fnum x y pl crc) =
           Inr \<lparr>u_start = START_MAGIC_WORD, u_prover_ptype_ccount = [hb],
                u_frame_number = fnum, u_frame_x_shape = x, u_frame_y_shape = y,
                u_payload_length = length pl, u_payload_bin = pl, u_payload_crc = crc,
                u_end = END_MAGIC_WORD\<rparr>"
proof -
  let ?w = "wire hb fnum x y pl crc"
  have len: "from_le (slice 12 16 ?w) = length pl"
    using assms(4) by (simp add: wire_def slice_def START_MAGIC_WORD_def from_le_le_bytes4)
  have s0: "slice 0 3 ?w = START_MAGIC_WORD"
    by (simp add: wire_def slice_def START_MAGIC_WORD_def)
  have s1: "slice 3 4 ?w = [hb]"
    by (simp add: wire_def slice_def START_MAGIC_WORD_def)
  have s2: "from_le (slice 4 8 ?w) = fnum"
    using assms(1) by (simp add: wire_def slice_def START_MAGIC_WORD_def from_le_le_bytes4)
  have s3: "from_le (slice 8 10 ?w) = x"
    using assms(2) by (simp add: wire_def slice_def START_MAGIC_WORD_def from_le_le_bytes2)
  have s4: "from_le (slice 10 12 ?w) = y"
    using assms(3) by (simp add: wire_def slice_def START_MAGIC_WORD_def from_le_le_bytes2)
  have split: "?w = (START_MAGIC_WORD @ [hb] @ le_bytes4 fnum @ le_bytes2 x @ le_bytes2 y
        @ le_bytes4 (length pl)) @ pl @ le_bytes2 crc @ END_MAGIC_WORD"
    by (simp add: wire_def)
  have hdr: "length (START_MAGIC_WORD @ [hb] @ le_bytes4 fnum @ le_bytes2 x @ le_bytes2 y
        @ le_bytes4 (length pl)) = 16"
    by (simp add: START_MAGIC_WORD_def)
  have d16: "drop 16 ?w = pl @ le_bytes2 crc @ END_MAGIC_WORD"
    by (metis split hdr append_eq_conv_conj)
  have s5: "slice 16 (16 + length pl) ?w = pl"
    by (simp add: slice_def d16)
  have dpl: "drop (16 + length pl) ?w = le_bytes2 crc @ END_MAGIC_WORD"
    using d16 by (metis add.commute append_eq_conv_conj drop_drop)
  have s6: "from_le (slice (16 + length pl) (18 + length pl) ?w) = crc"
    using assms(5) by (simp add: slice_def dpl from_le_le_bytes2)
  have dcrc: "drop (18 + length pl) ?w = END_MAGIC_WORD"
  proof -
    have "drop (18 + length pl) ?w = drop 2 (drop (16 + length pl) ?w)"
      by (simp add: add.commute)
    then show ?thesis
      by (simp add: dpl)
  qed
  have s7: "slice (18 + length pl) (22 + length pl) ?w = END_MAGIC_WORD"
    by (simp add: slice_def dcrc END_MAGIC_WORD_def)
  show ?thesis
    by (simp add: unpack_def PAYLOAD_LEN_IDX_def len length_wire s0 s1 s2 s3 s4 s5 s6 s7 Let_def)
qed

lemma header_fields_header_byte:
  assumes "cc \<le> 3"
  shows "header_fields
           (from_le [of_nat (push_bit 6 PROTOCOL_VER OR push_bit 4 (PacketType_value pt)
                             OR push_bit 2 cc OR bin_form dt)]) = Returns (pt, cc, dt)"
proof -
  from assms have "cc = 0 \<or> cc = 1 \<or> cc = 2 \<or> cc = 3"
    by arith
  then show ?thesis
    by (elim disjE; cases pt; cases dt) (simp_all add: header_fields_eval)
qed

lemma header_byte_small:
  assumes "cc \<le> 3"
  shows "push_bit 6 PROTOCOL_VER OR push_bit 4 (PacketType_value pt)
           OR push_bit 2 cc OR bin_form dt < 256"
proof -
  from assms have "cc = 0 \<or> cc = 1 \<or> cc = 2 \<or> cc = 3"
    by arith
  then show ?thesis
    by (elim disjE; cases pt; cases dt) (simp_all add: PROTOCOL_VER_def)
qed

section \<open>Decoding what was encoded\<close>

lemma itemsize_pos [simp]: "0 < itemsize dt"
  by (cases dt) simp_all

lemma crc16_arc_fits: "crc16_arc bs < 2 ^ 16"
  using unsigned_less [of "foldl crc16_arc_byte 0 bs", where ?'a = nat]
  by (simp add: crc16_arc_def)

lemma deserialize_wire:
  assumes "fnum < 2 ^ 32" and "x < 2 ^ 16" and "y < 2 ^ 16"
    and "length pl < 2 ^ 32" and "crc < 2 ^ 16" and "cc \<le> 3"
    and "length pl = prod_list (if cc = 1 then [x, y] else [x, y, cc]) * itemsize dt"
  shows "deserialize
           (wire (of_nat (push_bit 6 PROTOCOL_VER OR push_bit 4 (PacketType_value pt)
                          OR push_bit 2 cc OR bin_form dt)) fnum x y pl crc) =
         (if crc \<noteq> crc16_arc pl then ReturnsNone CrcCheck
          else Returns \<lparr>frame_number = int fnum, packet_type = pt, payload_dtype = dt,
                 frame_shape = (if cc = 1 then [x, y] else [x, y, cc]),
                 frame_channel_count = cc,
                 payload = \<lparr>nd_shape = (if cc = 1 then [x, y] else [x, y, cc]),
                            nd_dtype = dt, nd_bytes = pl\<rparr>,
                 payload_crc = crc\<rparr>)"
proof -
  let ?shape = "if cc = 1 then [x, y] else [x, y, cc]"
  have buf: "frombuffer pl dt =
      Inr \<lparr>nd_shape = [prod_list ?shape], nd_dtype = dt, nd_bytes = pl\<rparr>"
    using assms(7) by (simp add: frombuffer_def)
  have shp: "reshape \<lparr>nd_shape = [prod_list ?shape], nd_dtype = dt, nd_bytes = pl\<rparr> ?shape =
      Inr \<lparr>nd_shape = ?shape, nd_dtype = dt, nd_bytes = pl\<rparr>"
    by (simp add: reshape_def nd_size_def)
  have parse: "deserialize_parse
           (wire (of_nat (push_bit 6 PROTOCOL_VER OR push_bit 4 (PacketType_value pt)
                          OR push_bit 2 cc OR bin_form dt)) fnum x y pl crc) =
      Returns \<lparr>p_packet_type = pt, p_frame_channel_count = cc, p_frame_number = fnum,
               p_shape = ?shape,
               p_payload = \<lparr>nd_shape = ?shape, nd_dtype = dt, nd_bytes = pl\<rparr>,
               p_payload_dtype = dt, p_payload_bin = pl, p_payload_crc = crc\<rparr>"
    unfolding deserialize_parse_def
    by (simp only: unpack_wire [OF assms(1-5)] sum.case unpacked.simps
        header_fields_header_byte [OF assms(6)] outcome.case prod.case buf Let_def shp)
  show ?thesis
    unfolding deserialize_def parse
    by (simp add: assign_fields_def placeholder_def Packet_init_def Let_def)
qed

lemma wire_ok_shape:
  assumes "wire_ok fn a"
  obtains h w where "nd_shape a = [h, w]"
  | h w c where "nd_shape a = [h, w, c]" and "c \<le> 3"
proof -
  from assms have "length (nd_shape a) = 2
      \<or> length (nd_shape a) = 3 \<and> nd_shape a ! 2 \<le> 3"
    by (simp add: wire_ok_def)
  then show thesis
  proof
    assume "length (nd_shape a) = 2"
    then obtain h w where "nd_shape a = [h, w]"
      by (auto simp: numeral_2_eq_2 length_Suc_conv)
    then show thesis
      by (rule that(1))
  next
    assume three: "length (nd_shape a) = 3 \<and> nd_shape a ! 2 \<le> 3"
    then obtain h w c where shape: "nd_shape a = [h, w, c]"
      by (auto simp: numeral_3_eq_3 length_Suc_conv)
    with three have "c \<le> 3"
      by simp
    with shape show thesis
      by (rule that(2))
  qed
qed

text \<open>The header byte, frame shape and channel count of a packet built from a frame.\<close>

lemma serialize_Packet_init:
  assumes "wire_ok fn a"
  shows "serialize (Packet_init fn pt a) =
           Inr (wire (of_nat (push_bit 6 PROTOCOL_VER OR push_bit 4 (PacketType_value pt)
                              OR push_bit 2 (frame_channel_count (Packet_init fn pt a))
                              OR bin_form (nd_dtype a)))
                  (nat fn) (nd_shape a ! 0) (nd_shape a ! 1) (nd_bytes a)
                  (crc16_arc (nd_bytes a)))"
proof -
  from assms have rng: "fits_I fn" "length (nd_bytes a) < 2 ^ 32"
      "nd_shape a ! 0 < 2 ^ 16" "nd_shape a ! 1 < 2 ^ 16"
    by (simp_all add: wire_ok_def)
  from assms show ?thesis
  proof (cases rule: wire_ok_shape)
    case (1 h w)
    with rng header_byte_small [of 1 pt "nd_dtype a"] crc16_arc_fits [of "nd_bytes a"]
    show ?thesis
      by (simp add: serialize_def header_byte_def Packet_init_def Let_def fits_I_def
          fits_H_def payload_length_def compute_crc_def)
  next
    case (2 h w c)
    with rng header_byte_small [of c pt "nd_dtype a"] crc16_arc_fits [of "nd_bytes a"]
    show ?thesis
      by (simp add: serialize_def header_byte_def Packet_init_def Let_def fits_I_def
          fits_H_def payload_length_def compute_crc_def)
  qed
qed

lemma channel_count_Packet_init:
  assumes "wire_ok fn a"
  shows "frame_channel_count (Packet_init fn pt a) \<le> 3"
    and "(if frame_channel_count (Packet_init fn pt a) = 1
          then [nd_shape a ! 0, nd_shape a ! 1]
          else [nd_shape a ! 0, nd_shape a ! 1, frame_channel_count (Packet_init fn pt a)])
         = decoded_shape (nd_shape a)"
    and "prod_list (decoded_shape (nd_shape a)) = nd_size a"
  using assms
  by (cases rule: wire_ok_shape;
      simp add: Packet_init_def Let_def decoded_shape_def nd_size_def)+

lemma deserialize_payload_replaced:
  assumes "wire_ok fn a" and "length pl = length (nd_bytes a)" and "crc < 2 ^ 16"
  shows "deserialize
           (wire (of_nat (push_bit 6 PROTOCOL_VER OR push_bit 4 (PacketType_value pt)
                          OR push_bit 2 (frame_channel_count (Packet_init fn pt a))
                          OR bin_form (nd_dtype a)))
              (nat fn) (nd_shape a ! 0) (nd_shape a ! 1) pl crc) =
         (if crc \<noteq> crc16_arc pl then ReturnsNone CrcCheck
          else Returns \<lparr>frame_number = fn, packet_type = pt, payload_dtype = nd_dtype a,
                 frame_shape = decoded_shape (nd_shape a),
                 frame_channel_count = frame_channel_count (Packet_init fn pt a),
                 payload = \<lparr>nd_shape = decoded_shape (nd_shape a),
                            nd_dtype = nd_dtype a, nd_bytes = pl\<rparr>,
                 payload_crc = crc\<rparr>)"
proof -
  let ?cc = "frame_channel_count (Packet_init fn pt a)"
  from assms(1) have rng: "nat fn < 2 ^ 32" "0 \<le> fn" "length pl < 2 ^ 32"
      "nd_shape a ! 0 < 2 ^ 16" "nd_shape a ! 1 < 2 ^ 16"
      "length (nd_bytes a) = nd_size a * itemsize (nd_dtype a)"
    using assms(2) by (auto simp: wire_ok_def fits_I_def nd_ok_def)
  note cc = channel_count_Packet_init [OF assms(1)]
  have len: "length pl =
      prod_list (if ?cc = 1 then [nd_shape a ! 0, nd_shape a ! 1]
                 else [nd_shape a ! 0, nd_shape a ! 1, ?cc]) * itemsize (nd_dtype a)"
    unfolding cc(2) cc(3) using rng(6) assms(2) by simp
  show ?thesis
    using deserialize_wire [OF rng(1) rng(4) rng(5) rng(3) assms(3) cc(1) len, of pt] rng(2)
    unfolding cc(2) by simp
qed

section \<open>CRC-16/ARC detects a change of one byte\<close>

lemma crc16_arc_bit_xor:
  "crc16_arc_bit (a XOR b) = crc16_arc_bit a XOR crc16_arc_bit b"
  by (simp add: crc16_arc_bit_def bit_xor_iff ac_simps)

lemma xor_eq_iff_word: "(a :: 'a::len word) XOR b = 0 \<longleftrightarrow> a = b"
  by (metis bit.xor_self xor.left_neutral xor.assoc xor.commute)

lemma crc16_arc_bit_eq_0:
  assumes "crc16_arc_bit c = 0"
  shows "c = 0"
proof (cases "bit c 0")
  case True
  with assms have "drop_bit 1 c XOR 0xA001 = 0"
    by (simp add: crc16_arc_bit_def)
  then have "drop_bit 1 c = (0xA001 :: 16 word)"
    by (simp add: xor_eq_iff_word)
  then have "bit (drop_bit 1 c) 15 = bit (0xA001 :: 16 word) 15"
    by simp
  then show ?thesis
    by (auto simp: bit_drop_bit_eq dest: bit_imp_le_length)
next
  case False
  with assms have zero: "drop_bit 1 c = 0"
    by (simp add: crc16_arc_bit_def)
  show ?thesis
  proof (rule bit_word_eqI)
    fix n
    assume "n < LENGTH(16)"
    show "bit c n \<longleftrightarrow> bit (0 :: 16 word) n"
    proof (cases n)
      case 0
      with False show ?thesis by simp
    next
      case (Suc m)
      have "bit c (Suc m) = bit (drop_bit 1 c) m"
        by (simp add: bit_drop_bit_eq)
      with zero Suc show ?thesis by simp
    qed
  qed
qed

lemma crc16_arc_bit_inj: "crc16_arc_bit a = crc16_arc_bit b \<longleftrightarrow> a = b"
proof
  assume "crc16_arc_bit a = crc16_arc_bit b"
  then have "crc16_arc_bit (a XOR b) = 0"
    by (simp add: crc16_arc_bit_xor)
  then have "a XOR b = 0"
    by (rule crc16_arc_bit_eq_0)
  then show "a = b"
    by (simp add: xor_eq_iff_word)
qed simp

lemma ucast_byte_inj: "(ucast (b :: byte) :: 16 word) = ucast b' \<longleftrightarrow> b = b'"
proof
  assume eq: "(ucast b :: 16 word) = ucast b'"
  show "b = b'"
  proof (rule bit_word_eqI)
    fix n
    assume n: "n < LENGTH(8)"
    from eq have "bit (ucast b :: 16 word) n = bit (ucast b' :: 16 word) n"
      by simp
    with n show "bit b n \<longleftrightarrow> bit b' n"
      by (simp add: bit_ucast_iff)
  qed
qed simp

lemma xor_cancel_left_word: "(c :: 'a::len word) XOR x = c XOR y \<longleftrightarrow> x = y"
  by (metis xor.assoc bit.xor_self xor.left_neutral)

lemma crc16_arc_byte_inj_state: "crc16_arc_byte c b = crc16_arc_byte c' b \<longleftrightarrow> c = c'"
  by (simp add: crc16_arc_byte_def funpow8 crc16_arc_bit_inj)
     (metis xor.commute xor_cancel_left_word)

lemma crc16_arc_byte_inj_byte: "crc16_arc_byte c b = crc16_arc_byte c b' \<longleftrightarrow> b = b'"
  by (simp add: crc16_arc_byte_def funpow8 crc16_arc_bit_inj xor_cancel_left_word ucast_byte_inj)

lemma foldl_crc16_arc_inj:
  "foldl crc16_arc_byte c bs = foldl crc16_arc_byte c' bs \<longleftrightarrow> c = c'"
  by (induction bs arbitrary: c c') (simp_all add: crc16_arc_byte_inj_state)

lemma crc16_arc_one_byte_changed:
  assumes "i < length pl" and "v \<noteq> pl ! i"
  shows "crc16_arc (pl[i := v]) \<noteq> crc16_arc pl"
proof -
  have old: "pl = take i pl @ pl ! i # drop (Suc i) pl"
    using assms(1) by (simp add: id_take_nth_drop)
  have new: "pl[i := v] = take i pl @ v # drop (Suc i) pl"
    using assms(1) by (simp add: upd_conv_take_nth_drop)
  have "foldl crc16_arc_byte 0 (take i pl @ v # drop (Suc i) pl)
      \<noteq> foldl crc16_arc_byte 0 (take i pl @ pl ! i # drop (Suc i) pl)"
    using assms(2) by (simp add: foldl_crc16_arc_inj crc16_arc_byte_inj_byte)
  then have "foldl crc16_arc_byte 0 (pl[i := v]) \<noteq> foldl crc16_arc_byte 0 pl"
    using old new by simp
  then show ?thesis
    by (simp add: crc16_arc_def word_eq_iff_unsigned [where ?'a = nat])
qed

lemma flip_changes_byte:
  assumes "k < 8"
  shows "(b :: byte) XOR push_bit k 1 \<noteq> b"
proof
  assume "b XOR push_bit k 1 = b"
  then have "b XOR push_bit k 1 = b XOR 0"
    by simp
  then have "(push_bit k 1 :: byte) = 0"
    by (simp only: xor_cancel_left_word)
  then have "bit (push_bit k 1 :: byte) k = bit (0 :: byte) k"
    by (simp only:)
  with assms show False
    by (simp add: bit_push_bit_iff bit_exp_iff)
qed

section \<open>Round trip and corrupted payloads\<close>

lemma all_equal_same_elements:
  assumes "nd_dtype b = nd_dtype a" and "nd_bytes b = nd_bytes a"
  shows "all_equal b a \<longleftrightarrow> NaN \<notin> set (elements a)"
proof -
  from assms have "elements b = elements a"
    by (simp add: elements_def)
  then show ?thesis
    by (auto simp: all_equal_def list_all2_same np_equal_def)
qed

lemma decoded_shape_same:
  "decoded_shape shp = shp \<longleftrightarrow> \<not> (length shp = 3 \<and> shp ! 2 = 1)"
proof (cases "length shp = 3 \<and> shp ! 2 = 1")
  case True
  then have "length (decoded_shape shp) = 2"
    by (simp add: decoded_shape_def)
  with True show ?thesis
    by auto
next
  case False
  then show ?thesis
    by (auto simp: decoded_shape_def)
qed

lemma roundtrip_result:
  assumes "wire_ok fn a"
  shows "\<exists>data. serialize (Packet_init fn pt a) = Inr data
     \<and> deserialize data =
        Returns \<lparr>frame_number = fn, packet_type = pt, payload_dtype = nd_dtype a,
                 frame_shape = decoded_shape (nd_shape a),
                 frame_channel_count = frame_channel_count (Packet_init fn pt a),
                 payload = \<lparr>nd_shape = decoded_shape (nd_shape a),
                            nd_dtype = nd_dtype a, nd_bytes = nd_bytes a\<rparr>,
                 payload_crc = crc16_arc (nd_bytes a)\<rparr>"
  using serialize_Packet_init [OF assms, of pt]
    deserialize_payload_replaced [OF assms refl crc16_arc_fits, of pt "nd_bytes a"]
  by simp

lemma roundtrips_iff:
  assumes "wire_ok fn a"
  shows "roundtrips (Packet_init fn pt a) \<longleftrightarrow>
           NaN \<notin> set (elements a) \<and> \<not> (length (nd_shape a) = 3 \<and> nd_shape a ! 2 = 1)"
proof -
  let ?q = "\<lparr>frame_number = fn, packet_type = pt, payload_dtype = nd_dtype a,
                 frame_shape = decoded_shape (nd_shape a),
                 frame_channel_count = frame_channel_count (Packet_init fn pt a),
                 payload = \<lparr>nd_shape = decoded_shape (nd_shape a),
                            nd_dtype = nd_dtype a, nd_bytes = nd_bytes a\<rparr>,
                 payload_crc = crc16_arc (nd_bytes a)\<rparr>"
  from roundtrip_result [OF assms, of pt]
  have "roundtrips (Packet_init fn pt a) = packet_eq ?q (Packet_init fn pt a)"
    by (auto simp: roundtrips_def)
  also have "\<dots> \<longleftrightarrow> decoded_shape (nd_shape a) = nd_shape a
      \<and> all_equal \<lparr>nd_shape = decoded_shape (nd_shape a),
                    nd_dtype = nd_dtype a, nd_bytes = nd_bytes a\<rparr> a"
    by (simp add: packet_eq_def Packet_init_def Let_def compute_crc_def)
  also have "\<dots> \<longleftrightarrow> NaN \<notin> set (elements a)
      \<and> \<not> (length (nd_shape a) = 3 \<and> nd_shape a ! 2 = 1)"
    by (auto simp: decoded_shape_same all_equal_same_elements)
  finally show ?thesis .
qed

lemma channel_count_1_two_axes:
  assumes "wire_ok fn a" and "frame_channel_count (Packet_init fn pt a) = 1"
  shows "length (decoded_shape (nd_shape a)) = 2"
  using assms
  by (cases rule: wire_ok_shape)
     (auto simp: Packet_init_def Let_def decoded_shape_def)

text \<open>
  C1 (as the code has it). Let \<open>p\<close> be the packet built from a frame of two axes, or of
  three axes with at most three channels, with every number inside its field. Then
  \<open>serialize\<close> returns a buffer and \<open>deserialize\<close> of it returns a packet with the frame number,
  packet type, CRC, element type and payload bytes of \<open>p\<close>; its payload has the shape of
  \<open>p\<close>'s payload, except that a channel axis of length 1 is dropped, so a packet of channel
  count 1 comes back with a payload of two axes. \<open>deserialize(serialize(p)) == p\<close> holds exactly
  when the payload has no NaN element and its shape is not \<open>(h, w, 1)\<close>.
\<close>

theorem roundtrip:
  assumes "wire_ok fn a"
  shows "\<exists>data q. serialize (Packet_init fn pt a) = Inr data \<and> deserialize data = Returns q
     \<and> frame_number q = fn \<and> packet_type q = pt
     \<and> payload_crc q = payload_crc (Packet_init fn pt a)
     \<and> nd_dtype (payload q) = nd_dtype a \<and> nd_bytes (payload q) = nd_bytes a
     \<and> nd_shape (payload q) = decoded_shape (nd_shape a)
     \<and> (frame_channel_count (Packet_init fn pt a) = 1 \<longrightarrow> length (nd_shape (payload q)) = 2)
     \<and> (roundtrips (Packet_init fn pt a) \<longleftrightarrow>
          NaN \<notin> set (elements a) \<and> \<not> (length (nd_shape a) = 3 \<and> nd_shape a ! 2 = 1))"
proof -
  from roundtrip_result [OF assms, of pt] obtain data where
    data: "serialize (Packet_init fn pt a) = Inr data"
      "deserialize data =
        Returns \<lparr>frame_number = fn, packet_type = pt, payload_dtype = nd_dtype a,
                 frame_shape = decoded_shape (nd_shape a),
                 frame_channel_count = frame_channel_count (Packet_init fn pt a),
                 payload = \<lparr>nd_shape = decoded_shape (nd_shape a),
                            nd_dtype = nd_dtype a, nd_bytes = nd_bytes a\<rparr>,
                 payload_crc = crc16_arc (nd_bytes a)\<rparr>"
    by blast
  have crc: "payload_crc (Packet_init fn pt a) = crc16_arc (nd_bytes a)"
    by (simp add: Packet_init_def Let_def compute_crc_def)
  from data crc channel_count_1_two_axes [OF assms, of pt] roundtrips_iff [OF assms, of pt]
  show ?thesis
    by simp
qed

lemma wire_ok_og_payload: "wire_ok 0xFA og_payload"
  by (simp add: wire_ok_def nd_ok_def nd_size_def fits_I_def og_payload_def)

lemma elements_og_payload:
  "elements og_payload =
     [Fin 4, Fin 4, Fin 4, Fin 4, Fin 4, Fin 4, Fin 4, Fin 4, Fin 4, Fin 4, Fin 4, Fin 4]"
  by (simp add: elements_def og_payload_def)

theorem roundtrip_witness:
  "wire_ok 0xFA og_payload \<and> roundtrips (Packet_init 0xFA FRAME og_payload)
   \<and> (\<exists>data q. serialize (Packet_init 0xFA FRAME og_payload) = Inr data
        \<and> deserialize data = Returns q \<and> nd_shape (payload q) = [2, 2, 3])"
proof -
  from roundtrip [OF wire_ok_og_payload, of FRAME] obtain data q where
    r: "serialize (Packet_init 0xFA FRAME og_payload) = Inr data"
      "deserialize data = Returns q"
      "nd_shape (payload q) = decoded_shape (nd_shape og_payload)"
      "roundtrips (Packet_init 0xFA FRAME og_payload) \<longleftrightarrow>
          NaN \<notin> set (elements og_payload)
          \<and> \<not> (length (nd_shape og_payload) = 3 \<and> nd_shape og_payload ! 2 = 1)"
    by blast
  have "decoded_shape (nd_shape og_payload) = [2, 2, 3]"
    by (simp add: decoded_shape_def og_payload_def)
  moreover have "roundtrips (Packet_init 0xFA FRAME og_payload)"
    unfolding r(4) elements_og_payload by (simp add: og_payload_def)
  ultimately show ?thesis
    using r(1-3) wire_ok_og_payload by auto
qed

text \<open>
  C1 as stated fails: for the packet built from the 3-D frame of shape \<open>(1, 1, 1)\<close> holding
  the byte 4, \<open>deserialize(serialize(p)) == p\<close> is false.
\<close>

theorem roundtrip_counterexample:
  "\<not> roundtrips (Packet_init 0 FRAME \<lparr>nd_shape = [1, 1, 1], nd_dtype = U8_INT, nd_bytes = [4]\<rparr>)"
proof -
  have "wire_ok 0 \<lparr>nd_shape = [1, 1, 1], nd_dtype = U8_INT, nd_bytes = [4]\<rparr>"
    by (simp add: wire_ok_def nd_ok_def nd_size_def fits_I_def)
  from roundtrips_iff [OF this, of FRAME] show ?thesis
    by simp
qed

lemma nth_after_header:
  assumes "length hdr = n" and "n \<le> i" and "i < n + length pl"
  shows "(hdr @ pl @ rest) ! i = pl ! (i - n)"
  using assms by (auto simp: nth_append)

lemma update_after_header:
  assumes "length hdr = n" and "n \<le> i" and "i < n + length pl"
  shows "(hdr @ pl @ rest)[i := v] = hdr @ pl[i - n := v] @ rest"
  using assms by (auto simp: list_update_append)

lemma flip_bit_at_wire:
  assumes "16 \<le> i" and "i < 16 + length pl"
  shows "flip_bit_at i k (wire hb fnum x y pl crc) =
           wire hb fnum x y (flip_bit_at (i - 16) k pl) crc"
proof -
  let ?hdr = "START_MAGIC_WORD @ [hb] @ le_bytes4 fnum @ le_bytes2 x @ le_bytes2 y
        @ le_bytes4 (length pl)"
  let ?rest = "le_bytes2 crc @ END_MAGIC_WORD"
  let ?pl' = "pl[i - 16 := pl ! (i - 16) XOR push_bit k 1]"
  have hdr: "length ?hdr = 16"
    by (simp add: START_MAGIC_WORD_def)
  have old: "wire hb fnum x y pl crc = ?hdr @ pl @ ?rest"
    by (simp add: wire_def)
  have new: "wire hb fnum x y ?pl' crc = ?hdr @ ?pl' @ ?rest"
    by (simp add: wire_def)
  have "flip_bit_at i k (?hdr @ pl @ ?rest) = ?hdr @ ?pl' @ ?rest"
    unfolding flip_bit_at_def
    by (simp only: nth_after_header [OF hdr assms] update_after_header [OF hdr assms])
  then show ?thesis
    by (simp only: old new flip_bit_at_def)
qed

text \<open>
  C4. For a packet built from a frame of two axes, or of three axes with at most three
  channels, with every number inside its field: flipping any one bit of any byte of the
  payload region (offsets 16 to 16 + L - 1) of the serialized buffer makes \<open>deserialize\<close>
  return \<open>None\<close> at its CRC comparison.
\<close>

theorem payload_bit_flip_detected:
  assumes "wire_ok fn a" and "serialize (Packet_init fn pt a) = Inr data"
    and "16 \<le> i" and "i < 16 + length (nd_bytes a)" and "k < 8"
  shows "deserialize (flip_bit_at i k data) = ReturnsNone CrcCheck"
proof -
  let ?pl = "nd_bytes a"
  let ?pl' = "flip_bit_at (i - 16) k ?pl"
  from assms(3,4) have j: "i - 16 < length ?pl"
    by simp
  have "?pl' = ?pl[i - 16 := ?pl ! (i - 16) XOR push_bit k 1]"
    by (simp add: flip_bit_at_def)
  with crc16_arc_one_byte_changed [OF j flip_changes_byte [OF assms(5)]]
  have differs: "crc16_arc ?pl \<noteq> crc16_arc ?pl'"
    by simp
  have len: "length ?pl' = length ?pl"
    by (simp add: flip_bit_at_def)
  from serialize_Packet_init [OF assms(1), of pt] assms(2)
  have "data = wire (of_nat (push_bit 6 PROTOCOL_VER OR push_bit 4 (PacketType_value pt)
                              OR push_bit 2 (frame_channel_count (Packet_init fn pt a))
                              OR bin_form (nd_dtype a)))
                  (nat fn) (nd_shape a ! 0) (nd_shape a ! 1) ?pl (crc16_arc ?pl)"
    by simp
  then have "flip_bit_at i k data =
      wire (of_nat (push_bit 6 PROTOCOL_VER OR push_bit 4 (PacketType_value pt)
                              OR push_bit 2 (frame_channel_count (Packet_init fn pt a))
                              OR bin_form (nd_dtype a)))
                  (nat fn) (nd_shape a ! 0) (nd_shape a ! 1) ?pl' (crc16_arc ?pl)"
    by (simp only: flip_bit_at_wire [OF assms(3,4)])
  with deserialize_payload_replaced [OF assms(1) len crc16_arc_fits, of pt ?pl] differs
  show ?thesis
    by simp
qed

theorem payload_bit_flip_detected_witness:
  "wire_ok 0xFA og_payload
   \<and> serialize (Packet_init 0xFA FRAME og_payload) =
       Inr [0x49, 0x4E, 0x55, 0x9C, 0xFA, 0, 0, 0, 2, 0, 2, 0, 0x0C, 0, 0, 0,
            4, 4, 4, 4, 4, 4, 4, 4, 4, 4, 4, 4, 0x60, 0x6F, 0x4E, 0x45, 0x4B, 0x4F]
   \<and> deserialize [0x49, 0x4E, 0x55, 0x9C, 0xFA, 0, 0, 0, 2, 0, 2, 0, 0x0C, 0, 0, 0,
                  5, 4, 4, 4, 4, 4, 4, 4, 4, 4, 4, 4, 0x60, 0x6F, 0x4E, 0x45, 0x4B, 0x4F] =
       ReturnsNone CrcCheck"
proof -
  have i: "(16 :: nat) \<le> 16" "16 < 16 + length (nd_bytes og_payload)" and k: "(0 :: nat) < 8"
    by (simp_all add: og_payload_def)
  from payload_bit_flip_detected [OF wire_ok_og_payload serialize_og_payload i k]
  have "deserialize [0x49, 0x4E, 0x55, 0x9C, 0xFA, 0, 0, 0, 2, 0, 2, 0, 0x0C, 0, 0, 0,
                  5, 4, 4, 4, 4, 4, 4, 4, 4, 4, 4, 4, 0x60, 0x6F, 0x4E, 0x45, 0x4B, 0x4F] =
       ReturnsNone CrcCheck"
    by (simp add: flip_bit_at_def)
  with wire_ok_og_payload serialize_og_payload show ?thesis
    by simp
qed

end
